theory Spec2Isabelle
  imports Complex_Main
begin

section \<open>Python values and containers\<close>

text \<open>
  The exceptions the modelled functions can raise. Every one of them is a subclass of
  Python's \<open>Exception\<close>, so the \<open>try ... except Exception\<close> that wraps each public
  function catches it.
\<close>

datatype py_error =
    KeyError string
  | IndexError
  | ValueError
  | TypeError
  | ImageReadError

text \<open>
  A Python \<open>dict\<close> keeps its keys in insertion order; assigning to a key that is already
  there replaces the value and leaves the key where it was. It is modelled as an
  association list with distinct keys; \<open>map_of\<close> is the lookup.
\<close>

fun dict_set :: "('k \<times> 'v) list \<Rightarrow> 'k \<Rightarrow> 'v \<Rightarrow> ('k \<times> 'v) list" where
  "dict_set [] k v = [(k, v)]"
| "dict_set ((k', v') # d) k v =
     (if k' = k then (k, v) # d else (k', v') # dict_set d k v)"

definition dict_get :: "('k \<times> 'v) list \<Rightarrow> 'k \<Rightarrow> 'v \<Rightarrow> 'v" where
  "dict_get d k dflt = (case map_of d k of None \<Rightarrow> dflt | Some v \<Rightarrow> v)"

text \<open>First-error traversal: a \<open>for\<close> loop whose body may raise.\<close>

fun map_err :: "('a \<Rightarrow> 'e + 'b) \<Rightarrow> 'a list \<Rightarrow> 'e + 'b list" where
  "map_err f [] = Inr []"
| "map_err f (x # xs) =
     (case f x of
        Inl e \<Rightarrow> Inl e
      | Inr y \<Rightarrow> (case map_err f xs of Inl e \<Rightarrow> Inl e | Inr ys \<Rightarrow> Inr (y # ys)))"

section \<open>The dictionary-style detection dataset\<close>

text \<open>
  The parsed JSON document. A key of a JSON object may be missing, so every field the
  code reads with \<open>obj['key']\<close> is an option (\<open>None\<close>: the key is absent, and the
  subscript raises \<open>KeyError\<close>). Present values are taken to have the JSON type the
  data model gives them; numbers of a bounding box are reals (Python's floats are
  idealised: rounding is not modelled).
  The width and the height of an image are read with \<open>image.get(key, default)\<close>, which
  tells an absent key from a key whose value is \<open>null\<close>.
\<close>

datatype dim_field = Absent | Null | Dim int

record image =
  img_id :: "int option"
  img_file_name :: "string option"
  img_width :: dim_field
  img_height :: dim_field

record annotation =
  ann_id :: "int option"
  ann_image_id :: "int option"
  ann_category_id :: "int option"
  ann_bbox :: "real list option"

record category =
  cat_id :: "int option"
  cat_name :: "string option"

record coco_data =
  coco_images :: "image list option"
  coco_annotations :: "annotation list option"
  coco_categories :: "category list option"

text \<open>\<open>coco_data.get(key, [])\<close>\<close>

definition get_list :: "'a list option \<Rightarrow> 'a list" where
  "get_list v = (case v of None \<Rightarrow> [] | Some xs \<Rightarrow> xs)"

section \<open>FormatConverter.coco\_to\_yolo\<close>

text \<open>
  One line of a label file, \<open>f"{class_id} {x_center} {y_center} {norm_width} {norm_height}"\<close>,
  kept as the five values that are formatted.
\<close>

record yolo_line =
  class_id :: int
  x_center :: real
  y_center :: real
  norm_width :: real
  norm_height :: real

text \<open>
  What the converter leaves behind: the files it writes, in the order it writes them,
  and the messages it passes to \<open>self.log\<close>. \<open>LabelFile fn ls\<close> is the file
  \<open>Path(fn).stem + ".txt"\<close> of the output directory holding the lines \<open>ls\<close>;
  \<open>ClassesFile ns\<close> is \<open>classes.txt\<close>.
\<close>

datatype written_file = LabelFile string "yolo_line list" | ClassesFile "string list"

datatype log_msg =
    MissingDimensions string
  | ConvertedCocoToYolo
  | ErrorCocoToYolo py_error
  | NoClassesFile
  | NoImageFound string
  | PILNotAvailable
  | ConvertedYoloToCoco
  | ErrorYoloToCoco py_error

record conv_state =
  written :: "written_file list"
  logged :: "log_msg list"

text \<open>
  \<open>self.log\<close> prints only in verbose mode. It is named \<open>log_message\<close> here, since \<open>log\<close>
  is the logarithm.
\<close>

definition log_message :: "bool \<Rightarrow> log_msg \<Rightarrow> conv_state \<Rightarrow> conv_state" where
  "log_message verbose m st = (if verbose then st\<lparr>logged := logged st @ [m]\<rparr> else st)"

definition write_file :: "written_file \<Rightarrow> conv_state \<Rightarrow> conv_state" where
  "write_file f st = st\<lparr>written := written st @ [f]\<rparr>"

text \<open>\<open>categories = {cat['id']: cat['name'] for cat in ...}\<close>\<close>

fun build_categories ::
  "category list \<Rightarrow> (int \<times> string) list \<Rightarrow> py_error + (int \<times> string) list" where
  "build_categories [] d = Inr d"
| "build_categories (c # cs) d =
     (case cat_id c of
        None \<Rightarrow> Inl (KeyError ''id'')
      | Some i \<Rightarrow>
          (case cat_name c of
             None \<Rightarrow> Inl (KeyError ''name'')
           | Some n \<Rightarrow> build_categories cs (dict_set d i n)))"

text \<open>\<open>category_to_id = {name: idx for idx, name in enumerate(categories.values())}\<close>\<close>

fun build_category_to_id ::
  "string list \<Rightarrow> int \<Rightarrow> (string \<times> int) list \<Rightarrow> (string \<times> int) list" where
  "build_category_to_id [] idx d = d"
| "build_category_to_id (name # names) idx d =
     build_category_to_id names (idx + 1) (dict_set d name idx)"

text \<open>The grouping loop: \<open>image_annotations[image_id].append(ann)\<close>.\<close>

definition dict_append :: "(int \<times> 'a list) list \<Rightarrow> int \<Rightarrow> 'a \<Rightarrow> (int \<times> 'a list) list" where
  "dict_append d k x =
     (case map_of d k of None \<Rightarrow> dict_set d k [x] | Some xs \<Rightarrow> dict_set d k (xs @ [x]))"

fun group_annotations ::
  "annotation list \<Rightarrow> (int \<times> annotation list) list \<Rightarrow>
   py_error + (int \<times> annotation list) list" where
  "group_annotations [] d = Inr d"
| "group_annotations (ann # anns) d =
     (case ann_image_id ann of
        None \<Rightarrow> Inl (KeyError ''image_id'')
      | Some i \<Rightarrow> group_annotations anns (dict_append d i ann))"

text \<open>
  The body of the inner loop: one annotation to one line. \<open>bbox[0]\<close> to \<open>bbox[3]\<close> raise
  \<open>IndexError\<close> on a list of fewer than four numbers; longer lists are read up to
  index 3.
\<close>

definition annotation_to_line ::
  "(int \<times> string) list \<Rightarrow> (string \<times> int) list \<Rightarrow> int \<Rightarrow> int \<Rightarrow> annotation \<Rightarrow>
   py_error + yolo_line" where
  "annotation_to_line categories category_to_id w h ann =
     (case ann_bbox ann of
        None \<Rightarrow> Inl (KeyError ''bbox'')
      | Some bbox \<Rightarrow>
          (case ann_category_id ann of
             None \<Rightarrow> Inl (KeyError ''category_id'')
           | Some cid \<Rightarrow>
               (let category_name = dict_get categories cid ''unknown'';
                    cls = dict_get category_to_id category_name 0
                in if length bbox < 4 then Inl IndexError
                   else Inr \<lparr> class_id = cls,
                              x_center = (bbox ! 0 + bbox ! 2 / 2) / real_of_int w,
                              y_center = (bbox ! 1 + bbox ! 3 / 2) / real_of_int h,
                              norm_width = bbox ! 2 / real_of_int w,
                              norm_height = bbox ! 3 / real_of_int h \<rparr>)))"

text \<open>\<open>image.get('width', image_width)\<close>: the default is used only when the key is absent.\<close>

definition resolve_dim :: "dim_field \<Rightarrow> int option \<Rightarrow> int option" where
  "resolve_dim f dflt = (case f of Absent \<Rightarrow> dflt | Null \<Rightarrow> None | Dim n \<Rightarrow> Some n)"

text \<open>Python's \<open>not v\<close> for a value that is \<open>None\<close> or an integer.\<close>

definition falsy :: "int option \<Rightarrow> bool" where
  "falsy v = (case v of None \<Rightarrow> True | Some n \<Rightarrow> n = 0)"

text \<open>
  The loop over the images. It returns the exception that ended it, if any, with the
  state reached: files written before an exception stay written.
\<close>

fun convert_images ::
  "bool \<Rightarrow> (int \<times> string) list \<Rightarrow> (string \<times> int) list \<Rightarrow> (int \<times> annotation list) list \<Rightarrow>
   int option \<Rightarrow> int option \<Rightarrow> image list \<Rightarrow> conv_state \<Rightarrow> py_error option \<times> conv_state" where
  "convert_images verbose categories category_to_id image_annotations dw dh [] st = (None, st)"
| "convert_images verbose categories category_to_id image_annotations dw dh (img # rest) st =
     (case img_id img of
        None \<Rightarrow> (Some (KeyError ''id''), st)
      | Some image_id \<Rightarrow>
          (case img_file_name img of
             None \<Rightarrow> (Some (KeyError ''file_name''), st)
           | Some filename \<Rightarrow>
               (let w = resolve_dim (img_width img) dw;
                    h = resolve_dim (img_height img) dh
                in if falsy w \<or> falsy h
                   then convert_images verbose categories category_to_id image_annotations dw dh
                          rest (log_message verbose (MissingDimensions filename) st)
                   else
                     (case map_err (annotation_to_line categories category_to_id (the w) (the h))
                             (dict_get image_annotations image_id []) of
                        Inl e \<Rightarrow> (Some e, st)
                      | Inr yolo_lines \<Rightarrow>
                          convert_images verbose categories category_to_id image_annotations dw dh
                            rest (write_file (LabelFile filename yolo_lines) st)))))"

record conv_result =
  success :: bool
  files :: "written_file list"
  messages :: "log_msg list"

definition finish :: "bool \<Rightarrow> py_error option \<Rightarrow> conv_state \<Rightarrow> conv_result" where
  "finish verbose err st =
     (case err of
        Some e \<Rightarrow>
          (let st' = log_message verbose (ErrorCocoToYolo e) st
           in \<lparr> success = False, files = written st', messages = logged st' \<rparr>)
      | None \<Rightarrow>
          (let st' = log_message verbose ConvertedCocoToYolo st
           in \<lparr> success = True, files = written st', messages = logged st' \<rparr>))"

text \<open>
  The whole function, from the parsed document on (reading the file, creating the
  output directory and the writes themselves are taken to succeed).
\<close>

definition coco_to_yolo ::
  "bool \<Rightarrow> coco_data \<Rightarrow> int option \<Rightarrow> int option \<Rightarrow> conv_result" where
  "coco_to_yolo verbose data image_width image_height =
     (let st0 = \<lparr> written = [], logged = [] \<rparr>
      in case build_categories (get_list (coco_categories data)) [] of
           Inl e \<Rightarrow> finish verbose (Some e) st0
         | Inr categories \<Rightarrow>
             (let category_to_id = build_category_to_id (map snd categories) 0 []
              in case group_annotations (get_list (coco_annotations data)) [] of
                   Inl e \<Rightarrow> finish verbose (Some e) st0
                 | Inr image_annotations \<Rightarrow>
                     (case convert_images verbose categories category_to_id image_annotations
                             image_width image_height (get_list (coco_images data)) st0 of
                        (Some e, st) \<Rightarrow> finish verbose (Some e) st
                      | (None, st) \<Rightarrow>
                          finish verbose None
                            (write_file (ClassesFile (map fst category_to_id)) st))))"

section \<open>FormatConverter.yolo\_to\_coco\<close>

text \<open>
  The inputs as the function finds them on disk. A label file \<open>stem.txt\<close> of the
  directory is its stem and its lines; a line is the list of its whitespace-separated
  fields (\<open>line.strip().split()\<close>, empty for a blank line), and a field is what
  \<open>int(...)\<close> and \<open>float(...)\<close> make of it: an integer literal is accepted by both, a
  decimal literal by \<open>float\<close> only, anything else by neither.
  The image directory maps a file name to the size \<open>Image.open\<close> reports, or to \<open>None\<close>
  when the file exists and cannot be decoded.
\<close>

datatype token = IntTok int | FloatTok real | BadTok

record yolo_file =
  yf_stem :: string
  yf_lines :: "token list list"

record out_image =
  oi_id :: int
  oi_width :: int
  oi_height :: int
  oi_file_name :: string

record out_annotation =
  oa_id :: int
  oa_image_id :: int
  oa_category_id :: int
  oa_bbox :: "real list"
  oa_area :: real
  oa_iscrowd :: int

record out_category =
  oc_id :: int
  oc_name :: string
  oc_supercategory :: string

record coco_out =
  out_images :: "out_image list"
  out_annotations :: "out_annotation list"
  out_categories :: "out_category list"

definition py_int :: "token \<Rightarrow> py_error + int" where
  "py_int t = (case t of IntTok n \<Rightarrow> Inr n | FloatTok r \<Rightarrow> Inl ValueError | BadTok \<Rightarrow> Inl ValueError)"

definition py_float :: "token \<Rightarrow> py_error + real" where
  "py_float t =
     (case t of IntTok n \<Rightarrow> Inr (real_of_int n) | FloatTok r \<Rightarrow> Inr r | BadTok \<Rightarrow> Inl ValueError)"

text \<open>
  The classes: the explicit file when it is given and exists, else \<open>classes.txt\<close> of the
  label directory when it exists, else three generic names and a logged warning.
  The lists hold the stripped lines of the files.
\<close>

definition load_classes ::
  "bool \<Rightarrow> string list option \<Rightarrow> string list option \<Rightarrow> log_msg list \<Rightarrow> string list \<times> log_msg list" where
  "load_classes verbose classes_file sidecar lg =
     (case classes_file of
        Some cs \<Rightarrow> (cs, lg)
      | None \<Rightarrow>
          (case sidecar of
             Some cs \<Rightarrow> (cs, lg)
           | None \<Rightarrow>
               ([''class_0'', ''class_1'', ''class_2''],
                if verbose then lg @ [NoClassesFile] else lg)))"

text \<open>\<open>for idx, class_name in enumerate(classes)\<close>\<close>

fun add_categories :: "string list \<Rightarrow> int \<Rightarrow> out_category list" where
  "add_categories [] idx = []"
| "add_categories (class_name # rest) idx =
     \<lparr> oc_id = idx, oc_name = class_name, oc_supercategory = ''object'' \<rparr>
       # add_categories rest (idx + 1)"

text \<open>The first of the four extensions for which \<open>stem + ext\<close> exists in the image directory.\<close>

fun find_image :: "(string \<times> (int \<times> int) option) list \<Rightarrow> string \<Rightarrow> string list \<Rightarrow> string option" where
  "find_image images_dir image_name [] = None"
| "find_image images_dir image_name (ext # exts) =
     (if map_of images_dir (image_name @ ext) \<noteq> None then Some (image_name @ ext)
      else find_image images_dir image_name exts)"

definition image_extensions :: "string list" where
  "image_extensions = [''.jpg'', ''.jpeg'', ''.png'', ''.bmp'']"

text \<open>
  One line of a label file: \<open>None\<close> when the line is blank or has fewer than five fields
  (it is passed over), else the annotation, or the \<open>ValueError\<close> of a field that does not
  parse.
\<close>

definition parse_line ::
  "int \<Rightarrow> int \<Rightarrow> int \<Rightarrow> int \<Rightarrow> token list \<Rightarrow> py_error + out_annotation option" where
  "parse_line annotation_id image_id img_w img_h parts =
     (if parts = [] then Inr None
      else if length parts < 5 then Inr None
      else
        (case py_int (parts ! 0) of
           Inl e \<Rightarrow> Inl e
         | Inr cls \<Rightarrow>
        (case py_float (parts ! 1) of
           Inl e \<Rightarrow> Inl e
         | Inr f1 \<Rightarrow>
        (case py_float (parts ! 2) of
           Inl e \<Rightarrow> Inl e
         | Inr f2 \<Rightarrow>
        (case py_float (parts ! 3) of
           Inl e \<Rightarrow> Inl e
         | Inr f3 \<Rightarrow>
        (case py_float (parts ! 4) of
           Inl e \<Rightarrow> Inl e
         | Inr f4 \<Rightarrow>
             (let xc = f1 * real_of_int img_w;
                  yc = f2 * real_of_int img_h;
                  width = f3 * real_of_int img_w;
                  height = f4 * real_of_int img_h
              in Inr (Some \<lparr> oa_id = annotation_id,
                              oa_image_id = image_id,
                              oa_category_id = cls,
                              oa_bbox = [xc - width / 2, yc - height / 2, width, height],
                              oa_area = width * height,
                              oa_iscrowd = 0 \<rparr>))))))))"

text \<open>The loop over the lines of one file; the annotation id counts the appended annotations.\<close>

fun read_lines ::
  "int \<Rightarrow> int \<Rightarrow> int \<Rightarrow> token list list \<Rightarrow> out_annotation list \<times> int \<Rightarrow>
   py_error + (out_annotation list \<times> int)" where
  "read_lines image_id img_w img_h [] acc = Inr acc"
| "read_lines image_id img_w img_h (parts # rest) (anns, annotation_id) =
     (case parse_line annotation_id image_id img_w img_h parts of
        Inl e \<Rightarrow> Inl e
      | Inr None \<Rightarrow> read_lines image_id img_w img_h rest (anns, annotation_id)
      | Inr (Some a) \<Rightarrow> read_lines image_id img_w img_h rest (anns @ [a], annotation_id + 1))"

record yolo_state =
  ys_images :: "out_image list"
  ys_annotations :: "out_annotation list"
  ys_annotation_id :: int
  ys_logged :: "log_msg list"

definition ylog :: "bool \<Rightarrow> log_msg \<Rightarrow> yolo_state \<Rightarrow> yolo_state" where
  "ylog verbose m st = (if verbose then st\<lparr>ys_logged := ys_logged st @ [m]\<rparr> else st)"

text \<open>
  The loop over the label files, in the order the directory listing gives them.
  \<open>pil\<close> tells whether the imaging library can be imported.
\<close>

fun process_files ::
  "bool \<Rightarrow> bool \<Rightarrow> (string \<times> (int \<times> int) option) list \<Rightarrow> yolo_file list \<Rightarrow> yolo_state \<Rightarrow>
   py_error option \<times> yolo_state" where
  "process_files verbose pil images_dir [] st = (None, st)"
| "process_files verbose pil images_dir (txt_file # rest) st =
     (if yf_stem txt_file = ''classes'' then process_files verbose pil images_dir rest st
      else
        (case find_image images_dir (yf_stem txt_file) image_extensions of
           None \<Rightarrow>
             process_files verbose pil images_dir rest
               (ylog verbose (NoImageFound (yf_stem txt_file @ ''.txt'')) st)
         | Some image_path \<Rightarrow>
             (case (if pil then (case map_of images_dir image_path of
                                   Some (Some sz) \<Rightarrow> Inr (sz, st)
                                 | _ \<Rightarrow> Inl ImageReadError)
                    else Inr ((640, 480), ylog verbose PILNotAvailable st)) of
                Inl e \<Rightarrow> (Some e, st)
              | Inr ((img_w, img_h), st1) \<Rightarrow>
                  (let image_id = int (length (ys_images st1));
                       st2 = st1\<lparr>ys_images := ys_images st1 @
                                [\<lparr> oi_id = image_id, oi_width = img_w, oi_height = img_h,
                                   oi_file_name = image_path \<rparr>]\<rparr>
                   in case read_lines image_id img_w img_h (yf_lines txt_file)
                             (ys_annotations st2, ys_annotation_id st2) of
                        Inl e \<Rightarrow> (Some e, st2)
                      | Inr (anns, next_id) \<Rightarrow>
                          process_files verbose pil images_dir rest
                            (st2\<lparr>ys_annotations := anns, ys_annotation_id := next_id\<rparr>)))))"

record yolo_result =
  yr_success :: bool
  yr_output :: "coco_out option"
  yr_messages :: "log_msg list"

text \<open>
  The whole function. The output document is written at the end only, so a run that
  raises writes nothing.
\<close>

definition yolo_to_coco ::
  "bool \<Rightarrow> bool \<Rightarrow> string list option \<Rightarrow> string list option \<Rightarrow>
   (string \<times> (int \<times> int) option) list \<Rightarrow> yolo_file list \<Rightarrow> yolo_result" where
  "yolo_to_coco verbose pil classes_file sidecar images_dir txt_files =
     (case load_classes verbose classes_file sidecar [] of
        (classes, lg) \<Rightarrow>
          (case process_files verbose pil images_dir txt_files
                  \<lparr> ys_images = [], ys_annotations = [], ys_annotation_id = 1, ys_logged = lg \<rparr> of
             (Some e, st) \<Rightarrow>
               \<lparr> yr_success = False, yr_output = None,
                 yr_messages = ys_logged (ylog verbose (ErrorYoloToCoco e) st) \<rparr>
           | (None, st) \<Rightarrow>
               \<lparr> yr_success = True,
                 yr_output = Some \<lparr> out_images = ys_images st,
                                    out_annotations = ys_annotations st,
                                    out_categories = add_categories classes 0 \<rparr>,
                 yr_messages = ys_logged (ylog verbose ConvertedYoloToCoco st) \<rparr>))"

section \<open>AnnotationQAChecker.validate\_image\_annotations\<close>

text \<open>
  The entries of the result's lists, kept as values instead of formatted strings.
\<close>

datatype qa_error =
    MissingRequiredKey string
  | AnnotationMissingField "int option" string
  | FailedToValidate py_error
  | UnsupportedFileFormat

datatype bbox_issue =
    BBoxNot4Values int
  | BBoxNegativeValues int
  | BBoxZeroOrNegativeSize int

datatype qa_warning =
    ClassImbalance nat nat
  | HighMissingText nat nat
  | HighMissingLabels nat nat
  | HighMissingAudio nat nat

record image_results =
  total_images :: nat
  total_annotations :: nat
  missing_images :: "string list"
  invalid_bboxes :: "bbox_issue list"
  class_distribution :: "(string \<times> nat) list"
  ir_errors :: "qa_error list"
  ir_warnings :: "qa_warning list"

definition initial_image_results :: image_results where
  "initial_image_results =
     \<lparr> total_images = 0, total_annotations = 0, missing_images = [], invalid_bboxes = [],
       class_distribution = [], ir_errors = [], ir_warnings = [] \<rparr>"

text \<open>\<open>image_id_to_file = {img['id']: img['file_name'] for img in coco_data['images']}\<close>\<close>

fun build_image_id_to_file ::
  "image list \<Rightarrow> (int \<times> string) list \<Rightarrow> py_error + (int \<times> string) list" where
  "build_image_id_to_file [] d = Inr d"
| "build_image_id_to_file (img # imgs) d =
     (case img_id img of
        None \<Rightarrow> Inl (KeyError ''id'')
      | Some i \<Rightarrow>
          (case img_file_name img of
             None \<Rightarrow> Inl (KeyError ''file_name'')
           | Some n \<Rightarrow> build_image_id_to_file imgs (dict_set d i n)))"

text \<open>
  The inner loop over the required fields. Its \<open>continue\<close> continues this inner loop,
  so the loop only appends one error for each missing field.
\<close>

definition required_fields :: "string list" where
  "required_fields = [''id'', ''image_id'', ''category_id'', ''bbox'']"

definition has_field :: "annotation \<Rightarrow> string \<Rightarrow> bool" where
  "has_field ann field =
     (if field = ''id'' then ann_id ann \<noteq> None
      else if field = ''image_id'' then ann_image_id ann \<noteq> None
      else if field = ''category_id'' then ann_category_id ann \<noteq> None
      else if field = ''bbox'' then ann_bbox ann \<noteq> None
      else False)"

definition missing_field_errors :: "annotation \<Rightarrow> qa_error list" where
  "missing_field_errors ann =
     map (AnnotationMissingField (ann_id ann))
       (filter (\<lambda>field. \<not> has_field ann field) required_fields)"

text \<open>
  The bounding-box checks of one annotation; the message of a failed check reads
  \<open>ann['id']\<close>, which raises when the id is missing.
\<close>

definition check_bbox :: "annotation \<Rightarrow> real list \<Rightarrow> py_error + bbox_issue list" where
  "check_bbox ann bbox =
     (if length bbox \<noteq> 4 then
        (case ann_id ann of None \<Rightarrow> Inl (KeyError ''id'') | Some i \<Rightarrow> Inr [BBoxNot4Values i])
      else if \<exists>val \<in> set bbox. val < 0 then
        (case ann_id ann of None \<Rightarrow> Inl (KeyError ''id'') | Some i \<Rightarrow> Inr [BBoxNegativeValues i])
      else if bbox ! 2 \<le> 0 \<or> bbox ! 3 \<le> 0 then
        (case ann_id ann of None \<Rightarrow> Inl (KeyError ''id'')
         | Some i \<Rightarrow> Inr [BBoxZeroOrNegativeSize i])
      else Inr [])"

text \<open>\<open>class_counts[category_name] += 1\<close> on a \<open>Counter\<close>\<close>

definition counter_incr :: "('k \<times> nat) list \<Rightarrow> 'k \<Rightarrow> ('k \<times> nat) list" where
  "counter_incr c k = dict_set c k (dict_get c k 0 + 1)"

text \<open>
  The loop over the annotations. The results are updated in place, so what was appended
  before an exception is still there after it; the class counts are a local variable.
\<close>

fun validate_annotations ::
  "(int \<times> string) list \<Rightarrow> annotation list \<Rightarrow> image_results \<Rightarrow> (string \<times> nat) list \<Rightarrow>
   py_error option \<times> image_results \<times> (string \<times> nat) list" where
  "validate_annotations category_id_to_name [] results class_counts =
     (None, results, class_counts)"
| "validate_annotations category_id_to_name (ann # anns) results class_counts =
     (let results1 = results\<lparr>ir_errors := ir_errors results @ missing_field_errors ann\<rparr>
      in case ann_bbox ann of
           None \<Rightarrow> (Some (KeyError ''bbox''), results1, class_counts)
         | Some bbox \<Rightarrow>
             (case check_bbox ann bbox of
                Inl e \<Rightarrow> (Some e, results1, class_counts)
              | Inr issues \<Rightarrow>
                  (let results2 = results1\<lparr>invalid_bboxes := invalid_bboxes results1 @ issues\<rparr>
                   in case ann_category_id ann of
                        None \<Rightarrow> (Some (KeyError ''category_id''), results2, class_counts)
                      | Some cid \<Rightarrow>
                          validate_annotations category_id_to_name anns results2
                            (counter_incr class_counts
                               (dict_get category_id_to_name cid ''unknown'')))))"

text \<open>The class-imbalance check on the final counts.\<close>

definition imbalance_warnings :: "(string \<times> nat) list \<Rightarrow> qa_warning list" where
  "imbalance_warnings class_counts =
     (if class_counts \<noteq> [] then
        (let max_count = Max (set (map snd class_counts));
             min_count = Min (set (map snd class_counts))
         in if max_count > min_count * 10 then [ClassImbalance max_count min_count] else [])
      else [])"

definition failed :: "py_error \<Rightarrow> image_results \<Rightarrow> image_results" where
  "failed e results = results\<lparr>ir_errors := ir_errors results @ [FailedToValidate e]\<rparr>"

text \<open>
  The whole function, from the parsed document on. \<open>file_exists\<close> tells whether a file of
  that name exists in the image directory.
\<close>

definition validate_image_annotations :: "(string \<Rightarrow> bool) \<Rightarrow> coco_data \<Rightarrow> image_results" where
  "validate_image_annotations file_exists data =
     (let results = initial_image_results
      in case coco_images data of
           None \<Rightarrow> results\<lparr>ir_errors := [MissingRequiredKey ''images'']\<rparr>
         | Some images \<Rightarrow>
      (case coco_annotations data of
           None \<Rightarrow> results\<lparr>ir_errors := [MissingRequiredKey ''annotations'']\<rparr>
         | Some annotations \<Rightarrow>
      (case coco_categories data of
           None \<Rightarrow> results\<lparr>ir_errors := [MissingRequiredKey ''categories'']\<rparr>
         | Some categories \<Rightarrow>
             (let results1 = results\<lparr>total_images := length images,
                                      total_annotations := length annotations\<rparr>
              in case build_image_id_to_file images [] of
                   Inl e \<Rightarrow> failed e results1
                 | Inr image_id_to_file \<Rightarrow>
                     (case build_categories categories [] of
                        Inl e \<Rightarrow> failed e results1
                      | Inr category_id_to_name \<Rightarrow>
                          (let results2 = results1\<lparr>missing_images :=
                                 filter (\<lambda>n. \<not> file_exists n) (map (the \<circ> img_file_name) images)\<rparr>
                           in case validate_annotations category_id_to_name annotations results2 [] of
                                (Some e, results3, class_counts) \<Rightarrow> failed e results3
                              | (None, results3, class_counts) \<Rightarrow>
                                  results3\<lparr>class_distribution := class_counts,
                                           ir_warnings := imbalance_warnings class_counts\<rparr>))))))"

section \<open>AnnotationQAChecker.validate\_text\_annotations\<close>

text \<open>
  A \<open>str\<close> is the list of its code points; \<open>str_of\<close> writes one from ASCII text.
\<close>

type_synonym pystr = "nat list"

definition str_of :: "string \<Rightarrow> pystr" where
  "str_of s = map of_char s"

text \<open>
  A cell of a record: a string, JSON's \<open>null\<close>, or the NaN that \<open>pd.read_csv\<close> puts in
  place of an empty field. A key that is absent from the record is \<open>None\<close> of the option.
  Numbers and other values are outside this model.
\<close>

datatype pyval = PStr pystr | PNone | PNaN

record text_record =
  tr_text :: "pyval option"
  tr_label :: "pyval option"

text \<open>\<open>item.get(key, '')\<close>\<close>

definition get_cell :: "pyval option \<Rightarrow> pyval" where
  "get_cell c = (case c of None \<Rightarrow> PStr [] | Some v \<Rightarrow> v)"

text \<open>\<open>not v\<close>: the empty string and \<open>None\<close> are false, NaN is true.\<close>

definition py_not :: "pyval \<Rightarrow> bool" where
  "py_not v = (case v of PStr s \<Rightarrow> s = [] | PNone \<Rightarrow> True | PNaN \<Rightarrow> False)"

text \<open>\<open>str(v)\<close>\<close>

definition py_str :: "pyval \<Rightarrow> pystr" where
  "py_str v = (case v of PStr s \<Rightarrow> s | PNone \<Rightarrow> str_of ''None'' | PNaN \<Rightarrow> str_of ''nan'')"

text \<open>
  The code points \<open>str.strip()\<close> removes, those for which \<open>str.isspace\<close> holds: tab to
  carriage return, the four separators 28 to 31, the space, next line (133), the
  no-break space (160), the Ogham space mark (5760), the spaces U+2000 to U+200A, the
  line and paragraph separators (8232, 8233), the narrow no-break space (8239), the
  medium mathematical space (8287) and the ideographic space (12288).
\<close>

definition is_space :: "nat \<Rightarrow> bool" where
  "is_space n \<longleftrightarrow>
     (9 \<le> n \<and> n \<le> 13) \<or> (28 \<le> n \<and> n \<le> 31) \<or> n = 32 \<or> n = 133 \<or> n = 160 \<or> n = 5760 \<or>
     (8192 \<le> n \<and> n \<le> 8202) \<or> n = 8232 \<or> n = 8233 \<or> n = 8239 \<or> n = 8287 \<or> n = 12288"

text \<open>\<open>isinstance(v, str) and len(v.strip()) == 0\<close>\<close>

definition is_blank_str :: "pyval \<Rightarrow> bool" where
  "is_blank_str v = (case v of PStr s \<Rightarrow> list_all is_space s | PNone \<Rightarrow> False | PNaN \<Rightarrow> False)"

record length_stats =
  ls_min :: nat
  ls_max :: nat
  ls_mean :: real
  ls_median :: nat

text \<open>
  The statistics of a list of lengths, \<open>{}\<close> (here \<open>None\<close>) when the list is empty; the
  median is \<open>sorted(lengths)[len(lengths) // 2]\<close>.
\<close>

definition compute_length_stats :: "nat list \<Rightarrow> length_stats option" where
  "compute_length_stats lengths =
     (if lengths \<noteq> [] then
        Some \<lparr> ls_min = Min (set lengths),
               ls_max = Max (set lengths),
               ls_mean = real (sum_list lengths) / real (length lengths),
               ls_median = sort lengths ! (length lengths div 2) \<rparr>
      else None)"

record text_results =
  tx_total_samples :: nat
  tx_missing_text :: nat
  tx_missing_labels :: nat
  tx_empty_text :: nat
  tx_label_distribution :: "(pystr \<times> nat) list"
  tx_text_length_stats :: "length_stats option"
  tx_errors :: "qa_error list"
  tx_warnings :: "qa_warning list"

definition initial_text_results :: text_results where
  "initial_text_results =
     \<lparr> tx_total_samples = 0, tx_missing_text = 0, tx_missing_labels = 0, tx_empty_text = 0,
       tx_label_distribution = [], tx_text_length_stats = None, tx_errors = [],
       tx_warnings = [] \<rparr>"

text \<open>The loop over the samples, with its two local accumulators.\<close>

fun validate_samples ::
  "text_record list \<Rightarrow> text_results \<Rightarrow> nat list \<Rightarrow> (pystr \<times> nat) list \<Rightarrow>
   text_results \<times> nat list \<times> (pystr \<times> nat) list" where
  "validate_samples [] results text_lengths label_counts = (results, text_lengths, label_counts)"
| "validate_samples (item # items) results text_lengths label_counts =
     (let text = get_cell (tr_text item);
          label = get_cell (tr_label item);
          (results1, text_lengths1) =
            (if py_not text then (results\<lparr>tx_missing_text := tx_missing_text results + 1\<rparr>, text_lengths)
             else if is_blank_str text
               then (results\<lparr>tx_empty_text := tx_empty_text results + 1\<rparr>, text_lengths)
             else (results, text_lengths @ [length (py_str text)]));
          (results2, label_counts1) =
            (if py_not label
               then (results1\<lparr>tx_missing_labels := tx_missing_labels results1 + 1\<rparr>, label_counts)
             else (results1, counter_incr label_counts (py_str label)))
      in validate_samples items results2 text_lengths1 label_counts1)"

text \<open>
  The file is chosen by the extension of its path. The records are the elements of the
  JSON array, or the rows of the CSV file as \<open>pd.read_csv(...).to_dict('records')\<close> gives
  them: a row has every column of the file as a key, and an empty field is NaN.
\<close>

datatype text_source = CsvFile "text_record list" | JsonFile "text_record list" | OtherFile

definition text_warnings :: "nat \<Rightarrow> nat \<Rightarrow> nat \<Rightarrow> qa_warning list" where
  "text_warnings n missing_t missing_l =
     (if real missing_t > real n * (1 / 10) then [HighMissingText missing_t n] else []) @
     (if real missing_l > real n * (5 / 100) then [HighMissingLabels missing_l n] else [])"

definition validate_records :: "text_record list \<Rightarrow> text_results" where
  "validate_records data =
     (case validate_samples data (initial_text_results\<lparr>tx_total_samples := length data\<rparr>) [] [] of
        (results, text_lengths, label_counts) \<Rightarrow>
          results\<lparr>tx_label_distribution := label_counts,
                  tx_text_length_stats := compute_length_stats text_lengths,
                  tx_warnings := text_warnings (tx_total_samples results) (tx_missing_text results)
                                   (tx_missing_labels results)\<rparr>)"

definition validate_text_annotations :: "text_source \<Rightarrow> text_results" where
  "validate_text_annotations src =
     (case src of
        CsvFile data \<Rightarrow> validate_records data
      | JsonFile data \<Rightarrow> validate_records data
      | OtherFile \<Rightarrow> initial_text_results\<lparr>tx_errors := [UnsupportedFileFormat]\<rparr>)"

section \<open>AnnotationQAChecker.validate\_audio\_annotations\<close>

text \<open>
  A row of the audio table. The duration is a number, or \<open>None\<close> when the column is
  absent or the cell is NaN (neither passes the test \<open>duration > 0\<close>).
\<close>

record audio_row =
  ar_audio_file :: "pyval option"
  ar_transcription :: "pyval option"
  ar_duration :: "real option"

record duration_stats =
  ds_min :: real
  ds_max :: real
  ds_mean :: real
  ds_total :: real

record audio_results =
  au_total_samples :: nat
  au_missing_audio_files :: "pystr list"
  au_missing_transcriptions :: nat
  au_transcription_length_stats :: "length_stats option"
  au_duration_stats :: "duration_stats option"
  au_errors :: "qa_error list"
  au_warnings :: "qa_warning list"

definition initial_audio_results :: audio_results where
  "initial_audio_results =
     \<lparr> au_total_samples = 0, au_missing_audio_files = [], au_missing_transcriptions = 0,
       au_transcription_length_stats = None, au_duration_stats = None, au_errors = [],
       au_warnings = [] \<rparr>"

text \<open>
  The check of the audio file of one row: \<open>os.path.join\<close> raises \<open>TypeError\<close> on a NaN
  cell, which is true in a condition.
\<close>

definition check_audio_file :: "(pystr \<Rightarrow> bool) \<Rightarrow> pyval \<Rightarrow> py_error + pystr list" where
  "check_audio_file file_exists audio_file =
     (if py_not audio_file then Inr []
      else (case audio_file of
              PStr name \<Rightarrow> Inr (if file_exists name then [] else [name])
            | PNone \<Rightarrow> Inr []
            | PNaN \<Rightarrow> Inl TypeError))"

fun validate_rows ::
  "(pystr \<Rightarrow> bool) \<Rightarrow> audio_row list \<Rightarrow> audio_results \<Rightarrow> nat list \<Rightarrow> real list \<Rightarrow>
   py_error option \<times> audio_results \<times> nat list \<times> real list" where
  "validate_rows file_exists [] results transcription_lengths durations =
     (None, results, transcription_lengths, durations)"
| "validate_rows file_exists (row # rows) results transcription_lengths durations =
     (case check_audio_file file_exists (get_cell (ar_audio_file row)) of
        Inl e \<Rightarrow> (Some e, results, transcription_lengths, durations)
      | Inr missing \<Rightarrow>
          (let results1 = results\<lparr>au_missing_audio_files := au_missing_audio_files results @ missing\<rparr>;
               transcription = get_cell (ar_transcription row);
               (results2, transcription_lengths1) =
                 (if py_not transcription \<or> is_blank_str transcription
                    then (results1\<lparr>au_missing_transcriptions :=
                                     au_missing_transcriptions results1 + 1\<rparr>,
                          transcription_lengths)
                  else (results1, transcription_lengths @ [length (py_str transcription)]));
               durations1 =
                 (case ar_duration row of
                    None \<Rightarrow> durations
                  | Some d \<Rightarrow> if d \<noteq> 0 \<and> d > 0 then durations @ [d] else durations)
           in validate_rows file_exists rows results2 transcription_lengths1 durations1))"

definition compute_duration_stats :: "real list \<Rightarrow> duration_stats option" where
  "compute_duration_stats durations =
     (if durations \<noteq> [] then
        Some \<lparr> ds_min = Min (set durations),
               ds_max = Max (set durations),
               ds_mean = sum_list durations / real (length durations),
               ds_total = sum_list durations \<rparr>
      else None)"

definition validate_audio_annotations :: "(pystr \<Rightarrow> bool) \<Rightarrow> audio_row list \<Rightarrow> audio_results" where
  "validate_audio_annotations file_exists df =
     (case validate_rows file_exists df (initial_audio_results\<lparr>au_total_samples := length df\<rparr>) [] [] of
        (Some e, results, transcription_lengths, durations) \<Rightarrow>
          results\<lparr>au_errors := au_errors results @ [FailedToValidate e]\<rparr>
      | (None, results, transcription_lengths, durations) \<Rightarrow>
          results\<lparr>au_transcription_length_stats := compute_length_stats transcription_lengths,
                  au_duration_stats := compute_duration_stats durations,
                  au_warnings :=
                    (if real (length (au_missing_audio_files results)) >
                        real (au_total_samples results) * (5 / 100)
                     then [HighMissingAudio (length (au_missing_audio_files results))
                             (au_total_samples results)]
                     else [])\<rparr>)"

section \<open>Floating-point arithmetic and the two coordinate transforms\<close>

text \<open>
  Python's \<open>float\<close> is IEEE 754 binary64, and each of \<open>+\<close>, \<open>-\<close>, \<open>*\<close> and \<open>/\<close> returns
  the exact result rounded to the nearest number with a significand of 53 bits, ties
  going to the even significand. \<open>rnd\<close> is that rounding on the reals, with an
  unbounded exponent range: overflow to infinity and gradual underflow are not
  modelled. For \<open>x\<close> other than 0, \<open>fl_exponent x\<close> is the exponent \<open>e\<close> for which
  \<open>x / 2^e\<close> has its magnitude in \<open>[2^52, 2^53)\<close>, so that the numbers of the format
  near \<open>x\<close> are the integer multiples of \<open>2^e\<close>.
\<close>

definition round_half_even :: "real \<Rightarrow> int" where
  "round_half_even m =
     (let f = \<lfloor>m\<rfloor>; d = m - of_int f
      in if d < 1 / 2 then f else if d > 1 / 2 then f + 1 else if even f then f else f + 1)"

definition fl_exponent :: "real \<Rightarrow> int" where
  "fl_exponent x = \<lfloor>log 2 \<bar>x\<bar>\<rfloor> - 52"

definition rnd :: "real \<Rightarrow> real" where
  "rnd x =
     (if x = 0 then 0
      else of_int (round_half_even (x / 2 powr of_int (fl_exponent x))) *
             2 powr of_int (fl_exponent x))"

text \<open>
  The arithmetic of lines 90 to 93 of coco\_to\_yolo and of lines 208 to 219 of
  yolo\_to\_coco, with the rounding \<open>r\<close> of every operation as a parameter: \<open>rnd\<close> gives
  what Python computes, the identity gives the exact arithmetic of the definitions
  \<open>annotation_to_line\<close> and \<open>parse_line\<close> above. The text of a label file carries a float
  unchanged (\<open>repr\<close> and \<open>float\<close> are inverse), and the image dimensions are integers.
\<close>

definition to_normalized_center :: "(real \<Rightarrow> real) \<Rightarrow> real list \<Rightarrow> int \<Rightarrow> int \<Rightarrow> real list" where
  "to_normalized_center r bbox img_w img_h =
     [r (r (bbox ! 0 + r (bbox ! 2 / 2)) / real_of_int img_w),
      r (r (bbox ! 1 + r (bbox ! 3 / 2)) / real_of_int img_h),
      r (bbox ! 2 / real_of_int img_w),
      r (bbox ! 3 / real_of_int img_h)]"

definition to_absolute_topleft :: "(real \<Rightarrow> real) \<Rightarrow> real list \<Rightarrow> int \<Rightarrow> int \<Rightarrow> real list" where
  "to_absolute_topleft r parts img_w img_h =
     (let x_center = r (parts ! 0 * real_of_int img_w);
          y_center = r (parts ! 1 * real_of_int img_h);
          width = r (parts ! 2 * real_of_int img_w);
          height = r (parts ! 3 * real_of_int img_h)
      in [r (x_center - r (width / 2)), r (y_center - r (height / 2)), width, height])"

text \<open>The fields of a line as yolo\_to\_coco splits them.\<close>

definition line_tokens :: "yolo_line \<Rightarrow> token list" where
  "line_tokens l =
     [IntTok (class_id l), FloatTok (x_center l), FloatTok (y_center l),
      FloatTok (norm_width l), FloatTok (norm_height l)]"

section \<open>Example inputs\<close>

text \<open>One image of 100 by 100 pixels, one category, one annotation with the given box.\<close>

definition box_dataset :: "real list \<Rightarrow> coco_data" where
  "box_dataset bbox =
     \<lparr> coco_images = Some [\<lparr> img_id = Some 1, img_file_name = Some ''a.jpg'',
                             img_width = Dim 100, img_height = Dim 100 \<rparr>],
       coco_annotations = Some [\<lparr> ann_id = Some 1, ann_image_id = Some 1,
                                  ann_category_id = Some 7, ann_bbox = Some bbox \<rparr>],
       coco_categories = Some [\<lparr> cat_id = Some 7, cat_name = Some ''cat'' \<rparr>] \<rparr>"

text \<open>The same dataset without the \<open>categories\<close> key.\<close>

definition no_categories_dataset :: coco_data where
  "no_categories_dataset = (box_dataset [10, 20, 30, 40])\<lparr>coco_categories := None\<rparr>"

text \<open>The same dataset with an image width of -100.\<close>

definition negative_width_dataset :: coco_data where
  "negative_width_dataset =
     (box_dataset [10, 20, 30, 40])\<lparr>coco_images :=
        Some [\<lparr> img_id = Some 1, img_file_name = Some ''a.jpg'',
                 img_width = Dim (- 100), img_height = Dim 100 \<rparr>]\<rparr>"

text \<open>An image record without dimensions, and the sized image of \<open>box_dataset\<close>.\<close>

definition unsized_image :: image where
  "unsized_image =
     \<lparr> img_id = Some 2, img_file_name = Some ''b.jpg'', img_width = Absent, img_height = Absent \<rparr>"

definition sized_image :: image where
  "sized_image =
     \<lparr> img_id = Some 1, img_file_name = Some ''a.jpg'', img_width = Dim 100, img_height = Dim 100 \<rparr>"

text \<open>
  An annotation whose category id 99 is not in the categories, with and without a
  category that is itself named \<open>unknown\<close>.
\<close>

definition unknown_named_dataset :: coco_data where
  "unknown_named_dataset =
     \<lparr> coco_images = Some [\<lparr> img_id = Some 1, img_file_name = Some ''a.jpg'',
                             img_width = Dim 100, img_height = Dim 100 \<rparr>],
       coco_annotations = Some [\<lparr> ann_id = Some 1, ann_image_id = Some 1,
                                  ann_category_id = Some 99, ann_bbox = Some [10, 20, 30, 40] \<rparr>],
       coco_categories = Some [\<lparr> cat_id = Some 7, cat_name = Some ''cat'' \<rparr>,
                               \<lparr> cat_id = Some 8, cat_name = Some ''unknown'' \<rparr>] \<rparr>"

definition dangling_category_dataset :: coco_data where
  "dangling_category_dataset =
     unknown_named_dataset\<lparr>coco_categories := Some [\<lparr> cat_id = Some 7, cat_name = Some ''cat'' \<rparr>]\<rparr>"

text \<open>
  The same annotation with a category id used twice, first under the name \<open>unknown\<close>,
  and with the name \<open>unknown\<close> given to two category ids.
\<close>

definition reused_id_dataset :: coco_data where
  "reused_id_dataset =
     unknown_named_dataset\<lparr>coco_categories := Some [\<lparr> cat_id = Some 7, cat_name = Some ''unknown'' \<rparr>,
                                                    \<lparr> cat_id = Some 7, cat_name = Some ''cat'' \<rparr>]\<rparr>"

definition repeated_name_dataset :: coco_data where
  "repeated_name_dataset =
     unknown_named_dataset\<lparr>coco_categories := Some [\<lparr> cat_id = Some 6, cat_name = Some ''unknown'' \<rparr>,
                                                    \<lparr> cat_id = Some 7, cat_name = Some ''cat'' \<rparr>,
                                                    \<lparr> cat_id = Some 8, cat_name = Some ''unknown'' \<rparr>]\<rparr>"

text \<open>
  A label directory with one file \<open>a.txt\<close> and its image \<open>a.jpg\<close> of 100 by 100 pixels;
  the line of the file names class 5, or class 2.
\<close>

definition one_image_dir :: "(string \<times> (int \<times> int) option) list" where
  "one_image_dir = [(''a.jpg'', Some (100, 100))]"

definition bad_class_files :: "yolo_file list" where
  "bad_class_files =
     [\<lparr> yf_stem = ''a'',
        yf_lines = [ [IntTok 5, FloatTok (1 / 2), FloatTok (1 / 2), FloatTok (1 / 10),
                      FloatTok (1 / 10)] ] \<rparr>]"

definition three_class_files :: "yolo_file list" where
  "three_class_files =
     [\<lparr> yf_stem = ''a'',
        yf_lines = [ [IntTok 2, FloatTok (1 / 2), FloatTok (1 / 2), FloatTok (1 / 10),
                      FloatTok (1 / 10)] ] \<rparr>]"

text \<open>Four texts of the lengths 4, 1, 3 and 2.\<close>

definition four_texts :: "text_record list" where
  "four_texts = map (\<lambda>s. \<lparr> tr_text = Some (PStr (str_of s)), tr_label = Some (PStr (str_of ''x'')) \<rparr>)
                  [''dddd'', ''a'', ''ccc'', ''bb'']"

text \<open>
  Twenty records of a JSON array: three with the empty string as text, one without a
  label, one with a text of one space, fifteen complete ones.
\<close>

definition twenty_records :: "text_record list" where
  "twenty_records =
     replicate 3 \<lparr> tr_text = Some (PStr []), tr_label = Some (PStr (str_of ''x'')) \<rparr> @
     [\<lparr> tr_text = Some (PStr (str_of ''a'')), tr_label = None \<rparr>,
      \<lparr> tr_text = Some (PStr (str_of '' '')), tr_label = Some (PStr (str_of ''x'')) \<rparr>] @
     replicate 15 \<lparr> tr_text = Some (PStr (str_of ''a'')), tr_label = Some (PStr (str_of ''x'')) \<rparr>"

text \<open>
  The same twenty records as the rows of a CSV file with the columns \<open>text\<close> and \<open>label\<close>:
  the three empty text fields and the empty label field are NaN.
\<close>

definition twenty_rows :: "text_record list" where
  "twenty_rows =
     replicate 3 \<lparr> tr_text = Some PNaN, tr_label = Some (PStr (str_of ''x'')) \<rparr> @
     [\<lparr> tr_text = Some (PStr (str_of ''a'')), tr_label = Some PNaN \<rparr>,
      \<lparr> tr_text = Some (PStr (str_of '' '')), tr_label = Some (PStr (str_of ''x'')) \<rparr>] @
     replicate 15 \<lparr> tr_text = Some (PStr (str_of ''a'')), tr_label = Some (PStr (str_of ''x'')) \<rparr>"

text \<open>Two records whose texts are a no-break space and a next-line character.\<close>

definition blank_texts :: "text_record list" where
  "blank_texts =
     [\<lparr> tr_text = Some (PStr [160]), tr_label = Some (PStr (str_of ''x'')) \<rparr>,
      \<lparr> tr_text = Some (PStr [133]), tr_label = Some (PStr (str_of ''x'')) \<rparr>]"

text \<open>An annotation with all its fields and a valid box.\<close>

definition full_annotation :: "int \<Rightarrow> int \<Rightarrow> annotation" where
  "full_annotation i cid =
     \<lparr> ann_id = Some i, ann_image_id = Some 1, ann_category_id = Some cid,
       ann_bbox = Some [10, 20, 30, 40] \<rparr>"

text \<open>Two annotations, the first without the \<open>bbox\<close> key.\<close>

definition missing_bbox_dataset :: coco_data where
  "missing_bbox_dataset =
     \<lparr> coco_images = Some [],
       coco_annotations = Some [\<lparr> ann_id = Some 1, ann_image_id = Some 1,
                                  ann_category_id = Some 7, ann_bbox = None \<rparr>,
                                full_annotation 2 7],
       coco_categories = Some [\<lparr> cat_id = Some 7, cat_name = Some ''cat'' \<rparr>] \<rparr>"

text \<open>\<open>n\<close> annotations of category A and \<open>m\<close> of category B.\<close>

definition class_dataset :: "nat \<Rightarrow> nat \<Rightarrow> coco_data" where
  "class_dataset n m =
     \<lparr> coco_images = Some [],
       coco_annotations = Some (replicate n (full_annotation 1 1) @ replicate m (full_annotation 2 2)),
       coco_categories = Some [\<lparr> cat_id = Some 1, cat_name = Some ''A'' \<rparr>,
                               \<lparr> cat_id = Some 2, cat_name = Some ''B'' \<rparr>] \<rparr>"

section \<open>Auxiliary definitions for the proofs\<close>

text \<open>A text or transcription that enters the length statistics.\<close>

definition counted :: "pyval \<Rightarrow> bool" where
  "counted v \<longleftrightarrow> \<not> py_not v \<and> \<not> is_blank_str v"

text \<open>
  The invariant of the loop over the label files: image ids are the positions in the
  image list, and every annotation names the id of an image of the list.
\<close>

definition ids_ok :: "yolo_state \<Rightarrow> bool" where
  "ids_ok st \<longleftrightarrow>
     map oi_id (ys_images st) = map int [0..<length (ys_images st)] \<and>
     (\<forall>a \<in> set (ys_annotations st). \<exists>img \<in> set (ys_images st). oi_id img = oa_image_id a)"


text \<open>The state reached from \<open>st\<close> by a run that reaches \<open>r\<close> from the empty state.\<close>

definition shift :: "conv_state \<Rightarrow> conv_state \<Rightarrow> conv_state" where
  "shift st r = \<lparr> written = written st @ written r, logged = logged st @ logged r \<rparr>"

definition st0 :: conv_state where
  "st0 = \<lparr> written = [], logged = [] \<rparr>"


section \<open>Dictionaries and traversals\<close>

lemma map_of_dict_set: "map_of (dict_set d k v) = (map_of d)(k \<mapsto> v)"
  by (induction d k v rule: dict_set.induct) auto

lemma dict_get_dict_set:
  "dict_get (dict_set d k v) k' dflt = (if k' = k then v else dict_get d k' dflt)"
  by (simp add: dict_get_def map_of_dict_set)

lemma map_fst_dict_set:
  "map fst (dict_set d k v) = (if k \<in> fst ` set d then map fst d else map fst d @ [k])"
  by (induction d k v rule: dict_set.induct) auto

lemma dict_get_dict_append:
  "dict_get (dict_append d k x) i [] = dict_get d i [] @ (if i = k then [x] else [])"
  by (simp add: dict_append_def dict_get_def map_of_dict_set split: option.splits)

lemma group_annotations_get:
  "group_annotations anns d = Inr g \<Longrightarrow>
   dict_get g i [] = dict_get d i [] @ filter (\<lambda>a. ann_image_id a = Some i) anns"
proof (induction anns arbitrary: d)
  case Nil
  then show ?case by simp
next
  case (Cons a anns)
  then show ?case
    by (auto simp: dict_get_dict_append split: option.splits)
qed

lemma map_err_Inr_all2:
  "map_err f xs = Inr ys \<Longrightarrow> list_all2 (\<lambda>x y. f x = Inr y) xs ys"
  by (induction xs arbitrary: ys) (auto split: sum.splits)


section \<open>Properties of coco\_to\_yolo\<close>

lemma files_finish: "files (finish v e st) = written st"
  by (simp add: finish_def log_message_def Let_def split: option.splits)


text \<open>
  Every label file that is written comes from an image of the dataset with two
  non-zero dimensions, and holds the lines of the annotations grouped under its id.
\<close>

lemma convert_images_written:
  "convert_images v cats c2i g dw dh imgs st = (err, st') \<Longrightarrow>
   LabelFile fn ls \<in> set (written st') \<Longrightarrow>
   LabelFile fn ls \<in> set (written st) \<or>
   (\<exists>img \<in> set imgs. \<exists>i W H.
      img_id img = Some i \<and> img_file_name img = Some fn \<and>
      resolve_dim (img_width img) dw = Some W \<and> resolve_dim (img_height img) dh = Some H \<and>
      W \<noteq> 0 \<and> H \<noteq> 0 \<and>
      map_err (annotation_to_line cats c2i W H) (dict_get g i []) = Inr ls)"
proof (induction imgs arbitrary: st)
  case Nil
  then show ?case by simp
next
  case (Cons img imgs)
  show ?case
  proof (cases "img_id img")
    case None
    with Cons.prems show ?thesis by simp
  next
    case (Some i)
    note i = this
    show ?thesis
    proof (cases "img_file_name img")
      case None
      with i Cons.prems show ?thesis by simp
    next
      case (Some filename)
      note f = this
      let ?w = "resolve_dim (img_width img) dw"
      let ?h = "resolve_dim (img_height img) dh"
      show ?thesis
      proof (cases "falsy ?w \<or> falsy ?h")
        case True
        with i f Cons.prems(1)
        have "convert_images v cats c2i g dw dh imgs (log_message v (MissingDimensions filename) st)
              = (err, st')"
          by (simp add: Let_def)
        from Cons.IH[OF this Cons.prems(2)] show ?thesis
          by (auto simp: log_message_def split: if_splits)
      next
        case False
        then obtain W H where wh: "?w = Some W" "?h = Some H" "W \<noteq> 0" "H \<noteq> 0"
          by (auto simp: falsy_def split: option.splits)
        show ?thesis
        proof (cases "map_err (annotation_to_line cats c2i W H) (dict_get g i [])")
          case (Inl e)
          with i f wh False Cons.prems show ?thesis by (simp add: Let_def)
        next
          case (Inr yl)
          with i f wh False Cons.prems(1)
          have "convert_images v cats c2i g dw dh imgs (write_file (LabelFile filename yl) st)
                = (err, st')"
            by (simp add: Let_def)
          from Cons.IH[OF this Cons.prems(2)] show ?thesis
            using i f wh Inr by (auto simp: write_file_def)
        qed
      qed
    qed
  qed
qed

lemma coco_to_yolo_lines:
  assumes "LabelFile fn ls \<in> set (files (coco_to_yolo verbose d dw dh))"
  shows "\<exists>cats. \<exists>img \<in> set (get_list (coco_images d)). \<exists>i W H.
           build_categories (get_list (coco_categories d)) [] = Inr cats \<and>
           img_id img = Some i \<and> img_file_name img = Some fn \<and>
           resolve_dim (img_width img) dw = Some W \<and> resolve_dim (img_height img) dh = Some H \<and>
           W \<noteq> 0 \<and> H \<noteq> 0 \<and>
           map_err (annotation_to_line cats (build_category_to_id (map snd cats) 0 []) W H)
             (filter (\<lambda>a. ann_image_id a = Some i) (get_list (coco_annotations d))) = Inr ls"
proof -
  let ?st0 = "\<lparr> written = [], logged = [] \<rparr>"
  from assms obtain cats where cats: "build_categories (get_list (coco_categories d)) [] = Inr cats"
    by (cases "build_categories (get_list (coco_categories d)) []")
       (auto simp: coco_to_yolo_def files_finish)
  from assms cats obtain g where g: "group_annotations (get_list (coco_annotations d)) [] = Inr g"
    by (cases "group_annotations (get_list (coco_annotations d)) []")
       (auto simp: coco_to_yolo_def files_finish Let_def)
  let ?c2i = "build_category_to_id (map snd cats) 0 []"
  obtain err st where
    ci: "convert_images verbose cats ?c2i g dw dh (get_list (coco_images d)) ?st0 = (err, st)"
    by (cases "convert_images verbose cats ?c2i g dw dh (get_list (coco_images d)) ?st0") auto
  from assms cats g ci have "LabelFile fn ls \<in> set (written st)"
    by (cases err) (auto simp: coco_to_yolo_def files_finish Let_def write_file_def)
  from convert_images_written[OF ci this]
  obtain img i W H where "img \<in> set (get_list (coco_images d))"
      "img_id img = Some i" "img_file_name img = Some fn"
      "resolve_dim (img_width img) dw = Some W" "resolve_dim (img_height img) dh = Some H"
      "W \<noteq> 0" "H \<noteq> 0"
      "map_err (annotation_to_line cats ?c2i W H) (dict_get g i []) = Inr ls"
    by auto
  moreover have "dict_get g i [] =
      filter (\<lambda>a. ann_image_id a = Some i) (get_list (coco_annotations d))"
    using group_annotations_get[OF g, of i] by (simp add: dict_get_def)
  ultimately show ?thesis using cats by auto
qed

lemmas eval_coco_to_yolo =
  coco_to_yolo_def get_list_def finish_def log_message_def write_file_def annotation_to_line_def
  dict_get_def resolve_dim_def falsy_def dict_append_def Let_def



subsection \<open>Missing top-level keys\<close>

text \<open>
  Claim C3 as stated fails: the dataset of \<open>box_dataset\<close> without its \<open>categories\<close> key
  is converted. The run succeeds, and the label file of the image is written with the
  annotation's line under class index 0.
\<close>

theorem coco_to_yolo_missing_categories_counterexample:
  "coco_to_yolo True no_categories_dataset None None =
     \<lparr> success = True,
       files = [LabelFile ''a.jpg''
                  [\<lparr> class_id = 0, x_center = 25 / 100, y_center = 40 / 100,
                     norm_width = 30 / 100, norm_height = 40 / 100 \<rparr>],
                ClassesFile []],
       messages = [ConvertedCocoToYolo] \<rparr>"
  by (simp add: eval_coco_to_yolo box_dataset_def no_categories_dataset_def)

text \<open>
  Claim C3, amended. coco\_to\_yolo reads each of the three top-level keys with the
  empty list as its default and has no check of required keys: a dataset that lacks
  \<open>images\<close>, \<open>annotations\<close> or \<open>categories\<close> is converted exactly as the dataset
  with that key present and empty.
\<close>

theorem coco_to_yolo_missing_key_as_empty:
  "coco_to_yolo v \<lparr> coco_images = None, coco_annotations = a, coco_categories = c \<rparr> dw dh =
   coco_to_yolo v \<lparr> coco_images = Some [], coco_annotations = a, coco_categories = c \<rparr> dw dh \<and>
   coco_to_yolo v \<lparr> coco_images = i, coco_annotations = None, coco_categories = c \<rparr> dw dh =
   coco_to_yolo v \<lparr> coco_images = i, coco_annotations = Some [], coco_categories = c \<rparr> dw dh \<and>
   coco_to_yolo v \<lparr> coco_images = i, coco_annotations = a, coco_categories = None \<rparr> dw dh =
   coco_to_yolo v \<lparr> coco_images = i, coco_annotations = a, coco_categories = Some [] \<rparr> dw dh"
  by (simp_all add: coco_to_yolo_def get_list_def Let_def split: sum.splits prod.splits option.splits)

theorem coco_to_yolo_missing_key_as_empty_witness:
  "coco_to_yolo True no_categories_dataset None None =
   coco_to_yolo True (no_categories_dataset\<lparr>coco_categories := Some []\<rparr>) None None"
  using coco_to_yolo_missing_key_as_empty
          [where v = True and a = "coco_annotations no_categories_dataset" and dw = None
             and dh = None and i = "coco_images no_categories_dataset"]
  by (simp add: no_categories_dataset_def box_dataset_def)

subsection \<open>Images without dimensions\<close>

lemma shift_st0 [simp]: "shift st st0 = st" "shift st0 st = st"
  by (simp_all add: shift_def st0_def)

lemma shift_log: "log_message v m (shift st r) = shift st (log_message v m r)"
  by (simp add: shift_def log_message_def)

lemma shift_write: "write_file f (shift st r) = shift st (write_file f r)"
  by (simp add: shift_def write_file_def)

lemma convert_images_shift:
  "convert_images v c c2i g dw dh imgs (shift st r) =
   (case convert_images v c c2i g dw dh imgs r of (err, r') \<Rightarrow> (err, shift st r'))"
proof (induction imgs arbitrary: r)
  case Nil
  then show ?case by simp
next
  case (Cons img imgs)
  show ?case
    by (simp add: Let_def shift_log shift_write Cons.IH split: option.splits sum.splits)
qed

lemma convert_images_append:
  "convert_images v c c2i g dw dh (xs @ ys) st =
   (case convert_images v c c2i g dw dh xs st of
      (Some e, st') \<Rightarrow> (Some e, st')
    | (None, st') \<Rightarrow> convert_images v c c2i g dw dh ys st')"
proof (induction xs arbitrary: st)
  case Nil
  then show ?case by simp
next
  case (Cons img xs)
  show ?case
    by (simp add: Let_def Cons.IH split: option.splits sum.splits)
qed

lemma convert_images_from:
  "convert_images v c c2i g dw dh imgs st =
   (case convert_images v c c2i g dw dh imgs st0 of (err, r) \<Rightarrow> (err, shift st r))"
  using convert_images_shift[of v c c2i g dw dh imgs st st0] by simp

lemma convert_images_skip:
  assumes "img_id bad = Some i" "img_file_name bad = Some fn"
    "falsy (resolve_dim (img_width bad) dw) \<or> falsy (resolve_dim (img_height bad) dh)"
  shows "\<exists>err s1 r w.
    convert_images v c c2i g dw dh (pre @ post) st0 = (err, shift s1 r) \<and>
    convert_images v c c2i g dw dh (pre @ bad # post) st0 =
      (err, shift (s1\<lparr>logged := logged s1 @ w\<rparr>) r) \<and>
    (err = None \<longrightarrow> w = (if v then [MissingDimensions fn] else []))"
proof -
  obtain e1 s1 where pre: "convert_images v c c2i g dw dh pre st0 = (e1, s1)"
    by (cases "convert_images v c c2i g dw dh pre st0") auto
  show ?thesis
  proof (cases e1)
    case (Some e)
    with pre have "convert_images v c c2i g dw dh (pre @ post) st0 = (Some e, shift s1 st0)"
      "convert_images v c c2i g dw dh (pre @ bad # post) st0 =
         (Some e, shift (s1\<lparr>logged := logged s1 @ []\<rparr>) st0)"
      by (simp_all add: convert_images_append)
    then show ?thesis by blast
  next
    case None
    obtain e2 r where post: "convert_images v c c2i g dw dh post st0 = (e2, r)"
      by (cases "convert_images v c c2i g dw dh post st0") auto
    let ?w = "if v then [MissingDimensions fn] else []"
    have l: "log_message v (MissingDimensions fn) s1 = s1\<lparr>logged := logged s1 @ ?w\<rparr>"
      by (simp add: log_message_def)
    from pre None post have a: "convert_images v c c2i g dw dh (pre @ post) st0 = (e2, shift s1 r)"
      by (simp add: convert_images_append convert_images_from[of v c c2i g dw dh post s1])
    from pre None post assms
    have b: "convert_images v c c2i g dw dh (pre @ bad # post) st0 =
        (e2, shift (s1\<lparr>logged := logged s1 @ ?w\<rparr>) r)"
      by (simp add: convert_images_append Let_def l
            convert_images_from[of v c c2i g dw dh post "s1\<lparr>logged := logged s1 @ ?w\<rparr>"])
    from a b show ?thesis by blast
  qed
qed

text \<open>
  Claim C4 as stated fails for negative dimensions: an image whose width is -100 is not
  skipped. Its label file is written, with negative normalized values, and no warning
  is logged.
\<close>

theorem coco_to_yolo_negative_width_counterexample:
  "coco_to_yolo True negative_width_dataset None None =
     \<lparr> success = True,
       files = [LabelFile ''a.jpg''
                  [\<lparr> class_id = 0, x_center = - (25 / 100), y_center = 40 / 100,
                     norm_width = - (30 / 100), norm_height = 40 / 100 \<rparr>],
                ClassesFile [''cat'']],
       messages = [ConvertedCocoToYolo] \<rparr>"
  by (simp add: eval_coco_to_yolo box_dataset_def negative_width_dataset_def)

text \<open>
  Claim C4, amended. An image record with an id and a file name whose resolved width or
  height is missing (\<open>None\<close>) or zero is passed over: the run writes the same files and
  has the same outcome as the run on the dataset without that image, so the image gets
  no label file and its siblings are converted as before; and when the siblings convert,
  the messages are those of the run without the image with, in verbose mode, one
  missing-dimensions warning for the image inserted. Negative dimensions are not
  covered: they are used as they are.
\<close>

theorem coco_to_yolo_skips_missing_dimensions:
  assumes "img_id bad = Some i" "img_file_name bad = Some fn"
    "falsy (resolve_dim (img_width bad) dw) \<or> falsy (resolve_dim (img_height bad) dh)"
  shows
   "success (coco_to_yolo v (d\<lparr>coco_images := Some (pre @ bad # post)\<rparr>) dw dh) =
    success (coco_to_yolo v (d\<lparr>coco_images := Some (pre @ post)\<rparr>) dw dh) \<and>
    files (coco_to_yolo v (d\<lparr>coco_images := Some (pre @ bad # post)\<rparr>) dw dh) =
    files (coco_to_yolo v (d\<lparr>coco_images := Some (pre @ post)\<rparr>) dw dh) \<and>
    (success (coco_to_yolo v (d\<lparr>coco_images := Some (pre @ post)\<rparr>) dw dh) \<longrightarrow>
      (\<exists>ms1 ms2.
         messages (coco_to_yolo v (d\<lparr>coco_images := Some (pre @ post)\<rparr>) dw dh) = ms1 @ ms2 \<and>
         messages (coco_to_yolo v (d\<lparr>coco_images := Some (pre @ bad # post)\<rparr>) dw dh) =
           ms1 @ (if v then [MissingDimensions fn] else []) @ ms2))"
proof (cases "build_categories (get_list (coco_categories d)) []")
  case (Inl e)
  then show ?thesis by (simp add: coco_to_yolo_def finish_def log_message_def)
next
  case (Inr c)
  note c = this
  show ?thesis
  proof (cases "group_annotations (get_list (coco_annotations d)) []")
    case (Inl e)
    with c show ?thesis by (simp add: coco_to_yolo_def finish_def log_message_def Let_def)
  next
    case (Inr g)
    let ?c2i = "build_category_to_id (map snd c) 0 []"
    from convert_images_skip[OF assms, of v c ?c2i g pre post]
    obtain err s1 r w where
      a: "convert_images v c ?c2i g dw dh (pre @ post) st0 = (err, shift s1 r)" and
      b: "convert_images v c ?c2i g dw dh (pre @ bad # post) st0 =
            (err, shift (s1\<lparr>logged := logged s1 @ w\<rparr>) r)" and
      w: "err = None \<longrightarrow> w = (if v then [MissingDimensions fn] else [])"
      by blast
    show ?thesis
    proof (cases err)
      case None
      with a b c Inr w show ?thesis
        apply (simp add: coco_to_yolo_def Let_def get_list_def st0_def[symmetric] finish_def
                 log_message_def write_file_def shift_def)
        apply (rule conjI)
         apply (rule impI)
         apply (rule exI[of _ "logged s1"])
         apply simp
        apply (rule impI)
        apply (rule exI[of _ "logged s1"])
        apply simp
        done
    next
      case (Some e)
      with a b c Inr show ?thesis
        by (simp add: coco_to_yolo_def Let_def get_list_def st0_def[symmetric] finish_def
                 log_message_def shift_def)
    qed
  qed
qed

theorem coco_to_yolo_skips_missing_dimensions_witness:
  "img_id unsized_image = Some 2 \<and> img_file_name unsized_image = Some ''b.jpg'' \<and>
   (falsy (resolve_dim (img_width unsized_image) None) \<or>
    falsy (resolve_dim (img_height unsized_image) None)) \<and>
   success (coco_to_yolo True
      ((box_dataset [10, 20, 30, 40])\<lparr>coco_images := Some ([sized_image] @ [])\<rparr>) None None) \<and>
   files (coco_to_yolo True
      ((box_dataset [10, 20, 30, 40])\<lparr>coco_images := Some ([sized_image] @ unsized_image # [])\<rparr>)
      None None) =
   files (coco_to_yolo True
      ((box_dataset [10, 20, 30, 40])\<lparr>coco_images := Some ([sized_image] @ [])\<rparr>) None None) \<and>
   (\<exists>ms1 ms2.
      messages (coco_to_yolo True
        ((box_dataset [10, 20, 30, 40])\<lparr>coco_images := Some ([sized_image] @ [])\<rparr>) None None) =
        ms1 @ ms2 \<and>
      messages (coco_to_yolo True
        ((box_dataset [10, 20, 30, 40])\<lparr>coco_images := Some ([sized_image] @ unsized_image # [])\<rparr>)
        None None) =
        ms1 @ (if True then [MissingDimensions ''b.jpg''] else []) @ ms2)"
proof -
  have h1: "img_id unsized_image = Some 2" and h2: "img_file_name unsized_image = Some ''b.jpg''"
    by (simp_all add: unsized_image_def)
  have h3: "falsy (resolve_dim (img_width unsized_image) None) \<or>
            falsy (resolve_dim (img_height unsized_image) None)"
    by (simp add: unsized_image_def resolve_dim_def falsy_def)
  have s: "success (coco_to_yolo True
      ((box_dataset [10, 20, 30, 40])\<lparr>coco_images := Some ([sized_image] @ [])\<rparr>) None None)"
    by (simp add: eval_coco_to_yolo box_dataset_def sized_image_def)
  from coco_to_yolo_skips_missing_dimensions
         [where v = True and d = "box_dataset [10, 20, 30, 40]" and pre = "[sized_image]"
            and post = "[]", OF h1 h2 h3] h1 h2 h3 s
  show ?thesis by blast
qed

subsection \<open>Annotations of unknown categories\<close>

lemma fst_set_dict_set: "fst ` set (dict_set d k v) = insert k (fst ` set d)"
  by (induction d k v rule: dict_set.induct) auto

lemma snd_set_dict_set: "snd ` set (dict_set d k v) \<subseteq> insert v (snd ` set d)"
  by (induction d k v rule: dict_set.induct) auto

lemma build_categories_keys:
  "build_categories cs d = Inr cats \<Longrightarrow>
   fst ` set cats = fst ` set d \<union> {i. \<exists>c \<in> set cs. cat_id c = Some i}"
proof (induction cs arbitrary: d)
  case Nil
  then show ?case by simp
next
  case (Cons c cs)
  then show ?case
    by (auto simp: fst_set_dict_set split: option.splits)
qed

lemma build_categories_values:
  "build_categories cs d = Inr cats \<Longrightarrow>
   snd ` set cats \<subseteq> snd ` set d \<union> {n. \<exists>c \<in> set cs. cat_name c = Some n}"
proof (induction cs arbitrary: d)
  case Nil
  then show ?case by simp
next
  case (Cons c cs)
  from Cons.prems obtain i n where c: "cat_id c = Some i" "cat_name c = Some n"
    and r: "build_categories cs (dict_set d i n) = Inr cats"
    by (auto split: option.splits)
  from Cons.IH[OF r] snd_set_dict_set[of d i n] c show ?case
    by auto
qed

lemma build_category_to_id_keys:
  "fst ` set (build_category_to_id names idx d) = fst ` set d \<union> set names"
  by (induction names idx d rule: build_category_to_id.induct) (auto simp: fst_set_dict_set)

lemma map_of_build_category_to_id_other:
  "n \<notin> set names \<Longrightarrow> map_of (build_category_to_id names idx d) n = map_of d n"
  by (induction names idx d rule: build_category_to_id.induct) (auto simp: map_of_dict_set)

lemma map_of_build_category_to_id_last:
  "i < length names \<Longrightarrow> names ! i = n \<Longrightarrow> \<forall>j. i < j \<longrightarrow> j < length names \<longrightarrow> names ! j \<noteq> n \<Longrightarrow>
   map_of (build_category_to_id names idx d) n = Some (idx + int i)"
proof (induction names idx d arbitrary: i rule: build_category_to_id.induct)
  case (1 idx d)
  then show ?case by simp
next
  case (2 name names idx d)
  show ?case
  proof (cases i)
    case 0
    with "2.prems" have n: "name = n" by simp
    have "n \<notin> set names"
    proof
      assume "n \<in> set names"
      then obtain k where "k < length names" "names ! k = n"
        by (auto simp: in_set_conv_nth)
      with "2.prems"(3)[rule_format, of "Suc k"] 0 show False by simp
    qed
    with n 0 show ?thesis
      by (simp add: map_of_build_category_to_id_other map_of_dict_set)
  next
    case (Suc k)
    with "2.prems" have k: "k < length names" "names ! k = n" by simp_all
    have "\<forall>j. k < j \<longrightarrow> j < length names \<longrightarrow> names ! j \<noteq> n"
    proof (intro allI impI)
      fix j assume "k < j" "j < length names"
      with "2.prems"(3)[rule_format, of "Suc j"] Suc show "names ! j \<noteq> n" by simp
    qed
    from "2.IH"[OF k this] Suc show ?thesis by simp
  qed
qed

lemma unknown_class_index:
  assumes cats: "build_categories cs [] = Inr cats"
    and line: "annotation_to_line cats (build_category_to_id (map snd cats) 0 []) W H ann = Inr l"
    and cid: "ann_category_id ann = Some cid" "\<forall>c \<in> set cs. cat_id c \<noteq> Some cid"
  shows "(''unknown'' \<notin> snd ` set cats \<longrightarrow> class_id l = 0) \<and>
         (\<forall>i < length cats. snd (cats ! i) = ''unknown'' \<longrightarrow>
            (\<forall>j. i < j \<longrightarrow> j < length cats \<longrightarrow> snd (cats ! j) \<noteq> ''unknown'') \<longrightarrow>
            class_id l = int i)"
proof -
  let ?reg = "build_category_to_id (map snd cats) 0 []"
  from build_categories_keys[OF cats] cid have "cid \<notin> fst ` set cats" by auto
  then have "map_of cats cid = None"
    by (simp add: map_of_eq_None_iff)
  then have n: "dict_get cats cid ''unknown'' = ''unknown''"
    by (simp add: dict_get_def)
  from line cid n have cl: "class_id l = dict_get ?reg ''unknown'' 0"
    by (auto simp: annotation_to_line_def Let_def split: option.splits if_splits)
  have a: "class_id l = 0" if "''unknown'' \<notin> snd ` set cats"
  proof -
    from that have "map_of ?reg ''unknown'' = None"
      by (simp add: map_of_build_category_to_id_other)
    with cl show ?thesis by (simp add: dict_get_def)
  qed
  have b: "class_id l = int i"
    if "i < length cats" "snd (cats ! i) = ''unknown''"
       "\<forall>j. i < j \<longrightarrow> j < length cats \<longrightarrow> snd (cats ! j) \<noteq> ''unknown''" for i
  proof -
    from that have "map_of ?reg ''unknown'' = Some (0 + int i)"
      by (intro map_of_build_category_to_id_last) simp_all
    with cl show ?thesis by (simp add: dict_get_def)
  qed
  from a b show ?thesis by blast
qed

lemma convert_images_classes:
  "convert_images v cats c2i g dw dh imgs st = (err, st') \<Longrightarrow>
   ClassesFile ns \<in> set (written st') \<Longrightarrow> ClassesFile ns \<in> set (written st)"
proof (induction imgs arbitrary: st)
  case Nil
  then show ?case by simp
next
  case (Cons img imgs)
  show ?case
  proof (cases "img_id img")
    case None
    with Cons.prems show ?thesis by simp
  next
    case (Some i)
    note i = this
    show ?thesis
    proof (cases "img_file_name img")
      case None
      with i Cons.prems show ?thesis by simp
    next
      case (Some filename)
      note f = this
      let ?w = "resolve_dim (img_width img) dw"
      let ?h = "resolve_dim (img_height img) dh"
      show ?thesis
      proof (cases "falsy ?w \<or> falsy ?h")
        case True
        with i f Cons.prems(1)
        have "convert_images v cats c2i g dw dh imgs (log_message v (MissingDimensions filename) st)
              = (err, st')"
          by (simp add: Let_def)
        from Cons.IH[OF this Cons.prems(2)] show ?thesis
          by (auto simp: log_message_def split: if_splits)
      next
        case False
        show ?thesis
        proof (cases "map_err (annotation_to_line cats c2i (the ?w) (the ?h)) (dict_get g i [])")
          case (Inl e)
          with i f False Cons.prems show ?thesis by (simp add: Let_def)
        next
          case (Inr yl)
          with i f False Cons.prems(1)
          have "convert_images v cats c2i g dw dh imgs (write_file (LabelFile filename yl) st)
                = (err, st')"
            by (simp add: Let_def)
          from Cons.IH[OF this Cons.prems(2)] show ?thesis
            by (auto simp: write_file_def)
        qed
      qed
    qed
  qed
qed

lemma coco_to_yolo_classes:
  assumes "ClassesFile ns \<in> set (files (coco_to_yolo v d dw dh))"
  shows "\<exists>cats. build_categories (get_list (coco_categories d)) [] = Inr cats \<and>
           ns = map fst (build_category_to_id (map snd cats) 0 [])"
proof -
  from assms obtain cats where cats: "build_categories (get_list (coco_categories d)) [] = Inr cats"
    by (cases "build_categories (get_list (coco_categories d)) []")
       (auto simp: coco_to_yolo_def files_finish)
  from assms cats obtain g where g: "group_annotations (get_list (coco_annotations d)) [] = Inr g"
    by (cases "group_annotations (get_list (coco_annotations d)) []")
       (auto simp: coco_to_yolo_def files_finish Let_def)
  let ?c2i = "build_category_to_id (map snd cats) 0 []"
  obtain err st where
    ci: "convert_images v cats ?c2i g dw dh (get_list (coco_images d)) \<lparr> written = [], logged = [] \<rparr>
           = (err, st)"
    by (cases "convert_images v cats ?c2i g dw dh (get_list (coco_images d))
                 \<lparr> written = [], logged = [] \<rparr>") auto
  have no: "ClassesFile ns \<notin> set (written st)"
    using convert_images_classes[OF ci, of ns] by auto
  from assms cats g ci no have "ns = map fst ?c2i"
    by (cases err) (auto simp: coco_to_yolo_def files_finish Let_def write_file_def)
  with cats show ?thesis by blast
qed

text \<open>
  Claim C10 as stated fails when the dataset has a category that is itself named
  \<open>unknown\<close>: the fallback name is then registered, and the annotation of the missing
  category id 99 gets that category's index, here 1.
\<close>

theorem coco_to_yolo_unknown_registered_counterexample:
  "files (coco_to_yolo True unknown_named_dataset None None) =
     [LabelFile ''a.jpg''
        [\<lparr> class_id = 1, x_center = 25 / 100, y_center = 40 / 100,
           norm_width = 30 / 100, norm_height = 40 / 100 \<rparr>],
      ClassesFile [''cat'', ''unknown'']]"
  by (simp add: eval_coco_to_yolo unknown_named_dataset_def)

text \<open>
  Claim C10, amended. Let \<open>categories\<close> be the dictionary from category id to name that
  the function builds. In every label file, the line of every annotation whose category
  id is not an id of the categories list carries \<open>category_to_id.get('unknown', 0)\<close>:
  class index 0 when no entry of \<open>categories\<close> has the name \<open>unknown\<close>, and otherwise the
  position in \<open>categories\<close> of the last entry with that name. When no category of the
  dataset is named \<open>unknown\<close>, no entry of \<open>categories\<close> has that name, and the name is
  not in the classes file either.
\<close>

theorem coco_to_yolo_unknown_class_index:
  "(\<forall>fn ls. LabelFile fn ls \<in> set (files (coco_to_yolo v d dw dh)) \<longrightarrow>
      (\<exists>categories. build_categories (get_list (coco_categories d)) [] = Inr categories \<and>
         (\<exists>img \<in> set (get_list (coco_images d)). img_file_name img = Some fn \<and>
            list_all2 (\<lambda>ann l. \<forall>cid. ann_category_id ann = Some cid \<longrightarrow>
                          (\<forall>c \<in> set (get_list (coco_categories d)). cat_id c \<noteq> Some cid) \<longrightarrow>
                          (''unknown'' \<notin> snd ` set categories \<longrightarrow> class_id l = 0) \<and>
                          (\<forall>i < length categories. snd (categories ! i) = ''unknown'' \<longrightarrow>
                             (\<forall>j. i < j \<longrightarrow> j < length categories \<longrightarrow>
                                  snd (categories ! j) \<noteq> ''unknown'') \<longrightarrow>
                             class_id l = int i))
              (filter (\<lambda>a. ann_image_id a = img_id img) (get_list (coco_annotations d))) ls))) \<and>
   (\<forall>categories. build_categories (get_list (coco_categories d)) [] = Inr categories \<longrightarrow>
      (\<forall>c \<in> set (get_list (coco_categories d)). cat_name c \<noteq> Some ''unknown'') \<longrightarrow>
      ''unknown'' \<notin> snd ` set categories) \<and>
   (\<forall>ns. ClassesFile ns \<in> set (files (coco_to_yolo v d dw dh)) \<longrightarrow>
      (\<forall>c \<in> set (get_list (coco_categories d)). cat_name c \<noteq> Some ''unknown'') \<longrightarrow>
      ''unknown'' \<notin> set ns)"
proof (intro conjI allI impI)
  fix ns
  assume "ClassesFile ns \<in> set (files (coco_to_yolo v d dw dh))"
    and nm: "\<forall>c \<in> set (get_list (coco_categories d)). cat_name c \<noteq> Some ''unknown''"
  from coco_to_yolo_classes[OF this(1)] obtain cats where
    cats: "build_categories (get_list (coco_categories d)) [] = Inr cats" and
    ns: "ns = map fst (build_category_to_id (map snd cats) 0 [])"
    by blast
  from build_categories_values[OF cats] nm have "''unknown'' \<notin> snd ` set cats" by auto
  then have "''unknown'' \<notin> fst ` set (build_category_to_id (map snd cats) 0 [])"
    by (simp add: build_category_to_id_keys)
  with ns show "''unknown'' \<notin> set ns" by simp
next
  fix categories
  assume "build_categories (get_list (coco_categories d)) [] = Inr categories"
    and "\<forall>c \<in> set (get_list (coco_categories d)). cat_name c \<noteq> Some ''unknown''"
  with build_categories_values[of "get_list (coco_categories d)" "[]" categories]
  show "''unknown'' \<notin> snd ` set categories" by auto
next
  fix fn ls
  let ?P = "\<lambda>cats ann l. \<forall>cid. ann_category_id ann = Some cid \<longrightarrow>
                          (\<forall>c \<in> set (get_list (coco_categories d)). cat_id c \<noteq> Some cid) \<longrightarrow>
                          (''unknown'' \<notin> snd ` set cats \<longrightarrow> class_id l = 0) \<and>
                          (\<forall>i < length cats. snd (cats ! i) = ''unknown'' \<longrightarrow>
                             (\<forall>j. i < j \<longrightarrow> j < length cats \<longrightarrow>
                                  snd (cats ! j) \<noteq> ''unknown'') \<longrightarrow>
                             class_id l = int i)"
  assume "LabelFile fn ls \<in> set (files (coco_to_yolo v d dw dh))"
  from coco_to_yolo_lines[OF this] obtain cats img i W H where
    cats: "build_categories (get_list (coco_categories d)) [] = Inr cats" and
    img: "img \<in> set (get_list (coco_images d))" "img_id img = Some i" "img_file_name img = Some fn" and
    m: "map_err (annotation_to_line cats (build_category_to_id (map snd cats) 0 []) W H)
          (filter (\<lambda>a. ann_image_id a = Some i) (get_list (coco_annotations d))) = Inr ls"
    by blast
  have "list_all2 (?P cats)
            (filter (\<lambda>a. ann_image_id a = Some i) (get_list (coco_annotations d))) ls"
    by (rule list_all2_mono[OF map_err_Inr_all2[OF m]])
       (use unknown_class_index[OF cats] in blast)
  with img cats show "\<exists>categories. build_categories (get_list (coco_categories d)) [] = Inr categories \<and>
         (\<exists>img \<in> set (get_list (coco_images d)). img_file_name img = Some fn \<and>
            list_all2 (?P categories)
              (filter (\<lambda>a. ann_image_id a = img_id img) (get_list (coco_annotations d))) ls)"
    by auto
qed

theorem coco_to_yolo_unknown_class_index_witness:
  "LabelFile ''a.jpg''
     [\<lparr> class_id = 0, x_center = 25 / 100, y_center = 40 / 100,
        norm_width = 30 / 100, norm_height = 40 / 100 \<rparr>]
     \<in> set (files (coco_to_yolo True dangling_category_dataset None None)) \<and>
   (\<exists>img \<in> set (get_list (coco_images dangling_category_dataset)).
      img_file_name img = Some ''a.jpg'' \<and>
      list_all2 (\<lambda>ann l. ann_category_id ann = Some 99 \<and> class_id l = 0)
        (filter (\<lambda>a. ann_image_id a = img_id img)
           (get_list (coco_annotations dangling_category_dataset)))
        [\<lparr> class_id = 0, x_center = 25 / 100, y_center = 40 / 100,
           norm_width = 30 / 100, norm_height = 40 / 100 \<rparr>]) \<and>
   LabelFile ''a.jpg''
     [\<lparr> class_id = 2, x_center = 25 / 100, y_center = 40 / 100,
        norm_width = 30 / 100, norm_height = 40 / 100 \<rparr>]
     \<in> set (files (coco_to_yolo True repeated_name_dataset None None)) \<and>
   (\<exists>img \<in> set (get_list (coco_images repeated_name_dataset)).
      img_file_name img = Some ''a.jpg'' \<and>
      list_all2 (\<lambda>ann l. ann_category_id ann = Some 99 \<and> class_id l = 2)
        (filter (\<lambda>a. ann_image_id a = img_id img)
           (get_list (coco_annotations repeated_name_dataset)))
        [\<lparr> class_id = 2, x_center = 25 / 100, y_center = 40 / 100,
           norm_width = 30 / 100, norm_height = 40 / 100 \<rparr>])"
proof -
  let ?D = dangling_category_dataset
  let ?R = repeated_name_dataset
  let ?L = "\<lambda>k. \<lparr> class_id = k, x_center = 25 / 100, y_center = 40 / 100,
                   norm_width = 30 / 100, norm_height = 40 / 100 \<rparr>"
  let ?P = "\<lambda>d cats ann l. \<forall>cid. ann_category_id ann = Some cid \<longrightarrow>
                (\<forall>c \<in> set (get_list (coco_categories d)). cat_id c \<noteq> Some cid) \<longrightarrow>
                (''unknown'' \<notin> snd ` set cats \<longrightarrow> class_id l = 0) \<and>
                (\<forall>i < length cats. snd (cats ! i) = ''unknown'' \<longrightarrow>
                   (\<forall>j. i < j \<longrightarrow> j < length cats \<longrightarrow> snd (cats ! j) \<noteq> ''unknown'') \<longrightarrow>
                   class_id l = int i)"
  have bd: "build_categories (get_list (coco_categories ?D)) [] = Inr [(7, ''cat'')]"
    by (simp add: dangling_category_dataset_def unknown_named_dataset_def get_list_def)
  have br: "build_categories (get_list (coco_categories ?R)) [] =
              Inr [(6, ''unknown''), (7, ''cat''), (8, ''unknown'')]"
    by (simp add: repeated_name_dataset_def unknown_named_dataset_def get_list_def)
  have fd: "LabelFile ''a.jpg'' [?L 0] \<in> set (files (coco_to_yolo True ?D None None))"
    by (simp add: eval_coco_to_yolo dangling_category_dataset_def unknown_named_dataset_def)
  have fr: "LabelFile ''a.jpg'' [?L 2] \<in> set (files (coco_to_yolo True ?R None None))"
    by (simp add: eval_coco_to_yolo repeated_name_dataset_def unknown_named_dataset_def)
  from coco_to_yolo_unknown_class_index[where v = True and d = ?D and dw = None and dh = None,
         THEN conjunct1, rule_format, OF fd] bd
  obtain img where img: "img \<in> set (get_list (coco_images ?D))" "img_file_name img = Some ''a.jpg''"
    and la: "list_all2 (?P ?D [(7::int, ''cat'')])
        (filter (\<lambda>a. ann_image_id a = img_id img) (get_list (coco_annotations ?D))) [?L 0]"
    by auto
  have d: "list_all2 (\<lambda>ann l. ann_category_id ann = Some 99 \<and> class_id l = 0)
        (filter (\<lambda>a. ann_image_id a = img_id img) (get_list (coco_annotations ?D))) [?L 0]"
    using la
  proof (rule list.rel_mono_strong)
    fix ann and l :: yolo_line
    assume a: "ann \<in> set (filter (\<lambda>a. ann_image_id a = img_id img) (get_list (coco_annotations ?D)))"
      and r: "?P ?D [(7::int, ''cat'')] ann l"
    from a have c: "ann_category_id ann = Some 99"
      by (auto simp: dangling_category_dataset_def unknown_named_dataset_def get_list_def
            split: if_splits)
    have "\<forall>c \<in> set (get_list (coco_categories ?D)). cat_id c \<noteq> Some 99"
      by (simp add: dangling_category_dataset_def unknown_named_dataset_def get_list_def)
    with c r have "''unknown'' \<notin> snd ` set [(7::int, ''cat'')] \<longrightarrow> class_id l = 0" by blast
    with c show "ann_category_id ann = Some 99 \<and> class_id l = 0" by simp
  qed
  from coco_to_yolo_unknown_class_index[where v = True and d = ?R and dw = None and dh = None,
         THEN conjunct1, rule_format, OF fr] br
  obtain img' where img': "img' \<in> set (get_list (coco_images ?R))" "img_file_name img' = Some ''a.jpg''"
    and la': "list_all2 (?P ?R [(6::int, ''unknown''), (7, ''cat''), (8, ''unknown'')])
        (filter (\<lambda>a. ann_image_id a = img_id img') (get_list (coco_annotations ?R))) [?L 2]"
    by auto
  have r: "list_all2 (\<lambda>ann l. ann_category_id ann = Some 99 \<and> class_id l = 2)
        (filter (\<lambda>a. ann_image_id a = img_id img') (get_list (coco_annotations ?R))) [?L 2]"
    using la'
  proof (rule list.rel_mono_strong)
    fix ann and l :: yolo_line
    let ?cats = "[(6::int, ''unknown''), (7, ''cat''), (8, ''unknown'')]"
    assume a: "ann \<in> set (filter (\<lambda>a. ann_image_id a = img_id img') (get_list (coco_annotations ?R)))"
      and r: "?P ?R ?cats ann l"
    from a have c: "ann_category_id ann = Some 99"
      by (auto simp: repeated_name_dataset_def unknown_named_dataset_def get_list_def
            split: if_splits)
    have "\<forall>c \<in> set (get_list (coco_categories ?R)). cat_id c \<noteq> Some 99"
      by (simp add: repeated_name_dataset_def unknown_named_dataset_def get_list_def)
    with c r have "\<forall>i < length ?cats. snd (?cats ! i) = ''unknown'' \<longrightarrow>
                   (\<forall>j. i < j \<longrightarrow> j < length ?cats \<longrightarrow> snd (?cats ! j) \<noteq> ''unknown'') \<longrightarrow>
                   class_id l = int i" by blast
    from this[rule_format, of 2] have "class_id l = 2" by simp
    with c show "ann_category_id ann = Some 99 \<and> class_id l = 2" by simp
  qed
  from img fd d img' fr r show ?thesis by blast
qed

text \<open>
  A category id used twice keeps its last name: the name \<open>unknown\<close> of the first use is
  not registered, and the annotation of the missing category id gets class index 0.
\<close>

lemma coco_to_yolo_reused_id_example: "files (coco_to_yolo True reused_id_dataset None None) =
     [LabelFile ''a.jpg''
        [\<lparr> class_id = 0, x_center = 25 / 100, y_center = 40 / 100,
           norm_width = 30 / 100, norm_height = 40 / 100 \<rparr>],
      ClassesFile [''cat'']]"
  by (simp add: eval_coco_to_yolo reused_id_dataset_def unknown_named_dataset_def)

section \<open>Properties of yolo\_to\_coco\<close>

lemmas eval_yolo_to_coco =
  yolo_to_coco_def load_classes_def ylog_def image_extensions_def parse_line_def py_int_def
  py_float_def Let_def

lemma parse_line_image_id:
  "parse_line n iid w h parts = Inr (Some a) \<Longrightarrow> oa_image_id a = iid"
  by (auto simp: parse_line_def Let_def split: if_splits sum.splits)

lemma read_lines_image_id:
  "read_lines iid w h ls (anns, n) = Inr (anns', n') \<Longrightarrow>
   a \<in> set anns' \<Longrightarrow> a \<in> set anns \<or> oa_image_id a = iid"
proof (induction ls arbitrary: anns n)
  case Nil
  then show ?case by simp
next
  case (Cons parts ls)
  show ?case
  proof (cases "parse_line n iid w h parts")
    case (Inl e)
    with Cons.prems show ?thesis by simp
  next
    case (Inr r)
    show ?thesis
    proof (cases r)
      case None
      with Inr Cons.prems Cons.IH show ?thesis by simp
    next
      case (Some b)
      with Inr Cons.prems(1) have "read_lines iid w h ls (anns @ [b], n + 1) = Inr (anns', n')"
        by simp
      from Cons.IH[OF this Cons.prems(2)] parse_line_image_id[of n iid w h parts b] Inr Some
      show ?thesis by auto
    qed
  qed
qed

lemma process_files_ids_ok:
  "process_files v pil dir fs st = (None, st') \<Longrightarrow> ids_ok st \<Longrightarrow> ids_ok st'"
proof (induction fs arbitrary: st)
  case Nil
  then show ?case by simp
next
  case (Cons f fs)
  show ?case
  proof (cases "yf_stem f = ''classes''")
    case True
    with Cons show ?thesis by simp
  next
    case False
    note nc = this
    show ?thesis
    proof (cases "find_image dir (yf_stem f) image_extensions")
      case None
      with nc Cons.prems(1)
      have "process_files v pil dir fs (ylog v (NoImageFound (yf_stem f @ ''.txt'')) st) = (None, st')"
        by simp
      moreover from Cons.prems(2) have "ids_ok (ylog v (NoImageFound (yf_stem f @ ''.txt'')) st)"
        by (simp add: ids_ok_def ylog_def)
      ultimately show ?thesis by (rule Cons.IH)
    next
      case (Some path)
      let ?probe = "if pil then (case map_of dir path of
                                   Some (Some sz) \<Rightarrow> Inr (sz, st)
                                 | _ \<Rightarrow> Inl ImageReadError)
                    else Inr ((640, 480), ylog v PILNotAvailable st)"
      from nc Some Cons.prems(1) obtain w h st1 where probe: "?probe = Inr ((w, h), st1)"
        by (cases ?probe) (auto simp del: map_of_eq_Some_iff)
      then have st1: "ys_images st1 = ys_images st" "ys_annotations st1 = ys_annotations st"
        by (auto simp: ylog_def split: if_splits option.splits)
      let ?iid = "int (length (ys_images st1))"
      let ?st2 = "st1\<lparr>ys_images := ys_images st1 @
                     [\<lparr> oi_id = ?iid, oi_width = w, oi_height = h, oi_file_name = path \<rparr>]\<rparr>"
      from nc Some probe Cons.prems(1) obtain anns next_id where
        rl: "read_lines ?iid w h (yf_lines f) (ys_annotations ?st2, ys_annotation_id ?st2)
               = Inr (anns, next_id)" and
        rest: "process_files v pil dir fs (?st2\<lparr>ys_annotations := anns, ys_annotation_id := next_id\<rparr>)
               = (None, st')"
        by (auto simp: Let_def simp del: map_of_eq_Some_iff split: sum.splits)
      have "ids_ok (?st2\<lparr>ys_annotations := anns, ys_annotation_id := next_id\<rparr>)"
        unfolding ids_ok_def
      proof (intro conjI ballI)
        from Cons.prems(2) st1
        show "map oi_id (ys_images (?st2\<lparr>ys_annotations := anns, ys_annotation_id := next_id\<rparr>)) =
              map int [0..<length (ys_images (?st2\<lparr>ys_annotations := anns, ys_annotation_id := next_id\<rparr>))]"
          by (simp add: ids_ok_def)
      next
        fix a
        assume "a \<in> set (ys_annotations (?st2\<lparr>ys_annotations := anns, ys_annotation_id := next_id\<rparr>))"
        then have "a \<in> set anns" by simp
        from read_lines_image_id[OF rl this] Cons.prems(2) st1
        show "\<exists>img \<in> set (ys_images (?st2\<lparr>ys_annotations := anns, ys_annotation_id := next_id\<rparr>)).
                oi_id img = oa_image_id a"
          by (auto simp: ids_ok_def)
      qed
      with rest show ?thesis by (rule Cons.IH)
    qed
  qed
qed

lemma add_categories_ids:
  "map oc_id (add_categories cs k) = map (\<lambda>i. k + int i) [0..<length cs]"
proof (induction cs arbitrary: k)
  case Nil
  then show ?case by simp
next
  case (Cons c cs)
  have "[0..<length (c # cs)] = 0 # map Suc [0..<length cs]"
    by (simp add: upt_conv_Cons map_Suc_upt del: upt_Suc)
  then show ?case by (simp add: Cons.IH comp_def del: upt_Suc)
qed

lemma parse_line_origin:
  "parse_line n iid w h parts = Inr (Some a) \<Longrightarrow>
   5 \<le> length parts \<and> py_int (parts ! 0) = Inr (oa_category_id a) \<and> oa_image_id a = iid \<and> oa_id a = n"
  by (auto simp: parse_line_def Let_def split: if_splits sum.splits)

lemma read_lines_origin:
  "read_lines iid w h ls (anns, n) = Inr (anns', n') \<Longrightarrow>
   a \<in> set anns' \<Longrightarrow>
   a \<in> set anns \<or>
   (oa_image_id a = iid \<and>
    (\<exists>parts \<in> set ls. 5 \<le> length parts \<and> py_int (parts ! 0) = Inr (oa_category_id a)))"
proof (induction ls arbitrary: anns n)
  case Nil
  then show ?case by simp
next
  case (Cons parts ls)
  show ?case
  proof (cases "parse_line n iid w h parts")
    case (Inl e)
    with Cons.prems show ?thesis by simp
  next
    case (Inr r)
    show ?thesis
    proof (cases r)
      case None
      with Inr Cons.prems(1) have "read_lines iid w h ls (anns, n) = Inr (anns', n')"
        by simp
      from Cons.IH[OF this Cons.prems(2)] show ?thesis by auto
    next
      case (Some b)
      with Inr Cons.prems(1) have "read_lines iid w h ls (anns @ [b], n + 1) = Inr (anns', n')"
        by simp
      from Cons.IH[OF this Cons.prems(2)] parse_line_origin[of n iid w h parts b] Inr Some
      show ?thesis by auto
    qed
  qed
qed

lemma process_files_origin:
  "process_files v pil dir fs st = (None, st') \<Longrightarrow>
   set (ys_images st) \<subseteq> set (ys_images st') \<and>
   (\<forall>a \<in> set (ys_annotations st').
      a \<in> set (ys_annotations st) \<or>
      (\<exists>f \<in> set fs. \<exists>parts \<in> set (yf_lines f).
         5 \<le> length parts \<and> py_int (parts ! 0) = Inr (oa_category_id a) \<and>
         (\<exists>img \<in> set (ys_images st'). oi_id img = oa_image_id a \<and>
            find_image dir (yf_stem f) image_extensions = Some (oi_file_name img))))"
proof (induction fs arbitrary: st)
  case Nil
  then show ?case by simp
next
  case (Cons f fs)
  show ?case
  proof (cases "yf_stem f = ''classes''")
    case True
    with Cons.prems have "process_files v pil dir fs st = (None, st')" by simp
    from Cons.IH[OF this] show ?thesis by auto
  next
    case False
    note nc = this
    show ?thesis
    proof (cases "find_image dir (yf_stem f) image_extensions")
      case None
      with nc Cons.prems(1)
      have "process_files v pil dir fs (ylog v (NoImageFound (yf_stem f @ ''.txt'')) st) = (None, st')"
        by simp
      from Cons.IH[OF this] show ?thesis
        by (auto simp: ylog_def split: if_splits)
    next
      case (Some path)
      let ?probe = "if pil then (case map_of dir path of
                                   Some (Some sz) \<Rightarrow> Inr (sz, st)
                                 | _ \<Rightarrow> Inl ImageReadError)
                    else Inr ((640, 480), ylog v PILNotAvailable st)"
      from nc Some Cons.prems(1) obtain w h st1 where probe: "?probe = Inr ((w, h), st1)"
        by (cases ?probe) (auto simp del: map_of_eq_Some_iff)
      then have st1: "ys_images st1 = ys_images st" "ys_annotations st1 = ys_annotations st"
        by (auto simp: ylog_def split: if_splits option.splits)
      let ?iid = "int (length (ys_images st1))"
      let ?img = "\<lparr> oi_id = ?iid, oi_width = w, oi_height = h, oi_file_name = path \<rparr>"
      let ?st2 = "st1\<lparr>ys_images := ys_images st1 @ [?img]\<rparr>"
      from nc Some probe Cons.prems(1) obtain anns next_id where
        rl: "read_lines ?iid w h (yf_lines f) (ys_annotations ?st2, ys_annotation_id ?st2)
               = Inr (anns, next_id)" and
        rest: "process_files v pil dir fs (?st2\<lparr>ys_annotations := anns, ys_annotation_id := next_id\<rparr>)
               = (None, st')"
        by (auto simp: Let_def simp del: map_of_eq_Some_iff split: sum.splits)
      note ih = Cons.IH[OF rest]
      from ih st1 have sub: "set (ys_images st) \<subseteq> set (ys_images st')" and
        mem: "?img \<in> set (ys_images st')"
        by auto
      have "a \<in> set (ys_annotations st) \<or>
            (\<exists>f' \<in> set (f # fs). \<exists>parts \<in> set (yf_lines f').
               5 \<le> length parts \<and> py_int (parts ! 0) = Inr (oa_category_id a) \<and>
               (\<exists>img \<in> set (ys_images st'). oi_id img = oa_image_id a \<and>
                  find_image dir (yf_stem f') image_extensions = Some (oi_file_name img)))"
        if a: "a \<in> set (ys_annotations st')" for a
      proof -
        from ih have "\<forall>a \<in> set (ys_annotations st'). a \<in> set anns \<or>
             (\<exists>f' \<in> set fs. \<exists>parts \<in> set (yf_lines f').
               5 \<le> length parts \<and> py_int (parts ! 0) = Inr (oa_category_id a) \<and>
               (\<exists>img \<in> set (ys_images st'). oi_id img = oa_image_id a \<and>
                  find_image dir (yf_stem f') image_extensions = Some (oi_file_name img)))"
          by simp
        with a consider
          (old) "a \<in> set anns" |
          (new) "\<exists>f' \<in> set fs. \<exists>parts \<in> set (yf_lines f').
               5 \<le> length parts \<and> py_int (parts ! 0) = Inr (oa_category_id a) \<and>
               (\<exists>img \<in> set (ys_images st'). oi_id img = oa_image_id a \<and>
                  find_image dir (yf_stem f') image_extensions = Some (oi_file_name img))"
          by blast
        then show ?thesis
        proof cases
          case old
          from read_lines_origin[OF rl old] st1 consider
            (before) "a \<in> set (ys_annotations st)" |
            (here) "oa_image_id a = ?iid"
              "\<exists>parts \<in> set (yf_lines f). 5 \<le> length parts \<and> py_int (parts ! 0) = Inr (oa_category_id a)"
            by auto
          then show ?thesis
          proof cases
            case before
            then show ?thesis by simp
          next
            case here
            from here(2) obtain parts where p: "parts \<in> set (yf_lines f)" "5 \<le> length parts"
              "py_int (parts ! 0) = Inr (oa_category_id a)" by blast
            have "oi_id ?img = oa_image_id a \<and>
                  find_image dir (yf_stem f) image_extensions = Some (oi_file_name ?img)"
              using here(1) Some by simp
            with mem have "\<exists>img \<in> set (ys_images st'). oi_id img = oa_image_id a \<and>
                  find_image dir (yf_stem f) image_extensions = Some (oi_file_name img)"
              by blast
            with p show ?thesis by auto
          qed
        next
          case new
          then show ?thesis by auto
        qed
      qed
      with sub show ?thesis by blast
    qed
  qed
qed

text \<open>
  Claim C9 as stated fails for the category ids: the class index of a line is copied
  into the annotation without any check against the class list. A line of class 5
  with a class list of one name gives an annotation of category id 5, and the only
  category has id 0.
\<close>

theorem yolo_to_coco_category_id_counterexample:
  "yolo_to_coco True True None (Some [''a'']) one_image_dir bad_class_files =
     \<lparr> yr_success = True,
       yr_output = Some
         \<lparr> out_images = [\<lparr> oi_id = 0, oi_width = 100, oi_height = 100, oi_file_name = ''a.jpg'' \<rparr>],
           out_annotations = [\<lparr> oa_id = 1, oa_image_id = 0, oa_category_id = 5,
                                oa_bbox = [45, 45, 10, 10], oa_area = 100, oa_iscrowd = 0 \<rparr>],
           out_categories = [\<lparr> oc_id = 0, oc_name = ''a'', oc_supercategory = ''object'' \<rparr>] \<rparr>,
       yr_messages = [ConvertedYoloToCoco] \<rparr>"
  by (simp add: eval_yolo_to_coco one_image_dir_def bad_class_files_def)

text \<open>
  Claim C9, amended. In the document that yolo\_to\_coco writes, every annotation's image
  id is the id of an image of the images list (the ids are the positions in that list),
  and the categories are the loaded class names with their positions as ids. Every
  annotation comes from a line of at least five fields of a label file: its category id is
  what \<open>int\<close> reads from the first field of that line, and its image is the one found for
  that file. No check is made against the class list: the category id is the id of a
  category exactly when it is at least 0 and less than the number of class names.
\<close>

theorem yolo_to_coco_referential_integrity:
  assumes "yr_output (yolo_to_coco v pil cf sc dir fs) = Some out"
  shows "(\<forall>a \<in> set (out_annotations out). \<exists>img \<in> set (out_images out). oi_id img = oa_image_id a) \<and>
         map oi_id (out_images out) = map int [0..<length (out_images out)] \<and>
         map oc_id (out_categories out) = map int [0..<length (fst (load_classes v cf sc []))] \<and>
         map oc_name (out_categories out) = fst (load_classes v cf sc []) \<and>
         (\<forall>a \<in> set (out_annotations out).
            \<exists>f \<in> set fs. \<exists>parts \<in> set (yf_lines f).
              5 \<le> length parts \<and> py_int (parts ! 0) = Inr (oa_category_id a) \<and>
              (\<exists>img \<in> set (out_images out). oi_id img = oa_image_id a \<and>
                 find_image dir (yf_stem f) image_extensions = Some (oi_file_name img))) \<and>
         (\<forall>a \<in> set (out_annotations out).
            (\<exists>c \<in> set (out_categories out). oc_id c = oa_category_id a) \<longleftrightarrow>
            (0 \<le> oa_category_id a \<and> oa_category_id a < int (length (fst (load_classes v cf sc [])))))"
proof -
  obtain classes lg where lc: "load_classes v cf sc [] = (classes, lg)"
    by (cases "load_classes v cf sc []") auto
  let ?s0 = "\<lparr> ys_images = [], ys_annotations = [], ys_annotation_id = 1, ys_logged = lg \<rparr>"
  obtain err st where pf: "process_files v pil dir fs ?s0 = (err, st)"
    by (cases "process_files v pil dir fs ?s0") auto
  from assms lc pf have err: "err = None" and
    out: "out = \<lparr> out_images = ys_images st, out_annotations = ys_annotations st,
                  out_categories = add_categories classes 0 \<rparr>"
    by (cases err; simp add: yolo_to_coco_def)+
  have "ids_ok ?s0" by (simp add: ids_ok_def)
  with pf err have ok: "ids_ok st" using process_files_ids_ok by blast
  from pf err have "process_files v pil dir fs ?s0 = (None, st)" by simp
  from process_files_origin[OF this]
  have origin: "\<forall>a \<in> set (ys_annotations st).
            \<exists>f \<in> set fs. \<exists>parts \<in> set (yf_lines f).
              5 \<le> length parts \<and> py_int (parts ! 0) = Inr (oa_category_id a) \<and>
              (\<exists>img \<in> set (ys_images st). oi_id img = oa_image_id a \<and>
                 find_image dir (yf_stem f) image_extensions = Some (oi_file_name img))"
    by simp
  have cats: "map oc_id (add_categories classes 0) = map int [0..<length classes]"
    by (simp add: add_categories_ids)
  have names: "map oc_name (add_categories classes k) = classes" for k
    by (induction classes arbitrary: k) auto
  have mem: "(\<exists>c \<in> set (add_categories classes 0). oc_id c = x) \<longleftrightarrow>
             (0 \<le> x \<and> x < int (length classes))" for x
  proof -
    have "(\<exists>c \<in> set (add_categories classes 0). oc_id c = x) \<longleftrightarrow>
          x \<in> set (map oc_id (add_categories classes 0))"
      by auto
    also have "\<dots> \<longleftrightarrow> x \<in> int ` {0..<length classes}"
      by (simp add: cats)
    also have "\<dots> \<longleftrightarrow> (0 \<le> x \<and> x < int (length classes))"
      by (auto simp: image_iff intro: bexI[of _ "nat x"])
    finally show ?thesis .
  qed
  from ok out lc cats names mem origin show ?thesis
    by (simp add: ids_ok_def)
qed

theorem yolo_to_coco_referential_integrity_witness:
  "yr_output (yolo_to_coco True True None (Some [''a'', ''b'', ''c'']) one_image_dir three_class_files) =
     Some \<lparr> out_images = [\<lparr> oi_id = 0, oi_width = 100, oi_height = 100, oi_file_name = ''a.jpg'' \<rparr>],
            out_annotations = [\<lparr> oa_id = 1, oa_image_id = 0, oa_category_id = 2,
                                 oa_bbox = [45, 45, 10, 10], oa_area = 100, oa_iscrowd = 0 \<rparr>],
            out_categories = [\<lparr> oc_id = 0, oc_name = ''a'', oc_supercategory = ''object'' \<rparr>,
                              \<lparr> oc_id = 1, oc_name = ''b'', oc_supercategory = ''object'' \<rparr>,
                              \<lparr> oc_id = 2, oc_name = ''c'', oc_supercategory = ''object'' \<rparr>] \<rparr> \<and>
   (\<exists>f \<in> set three_class_files. \<exists>parts \<in> set (yf_lines f).
      py_int (parts ! 0) = Inr 2 \<and>
      find_image one_image_dir (yf_stem f) image_extensions = Some ''a.jpg'') \<and>
   (\<exists>c \<in> set (add_categories [''a'', ''b'', ''c''] 0). oc_id c = 2)"
proof -
  let ?a = "\<lparr> oa_id = 1, oa_image_id = 0, oa_category_id = 2,
              oa_bbox = [45, 45, 10, 10], oa_area = 100, oa_iscrowd = 0 \<rparr>"
  let ?out = "\<lparr> out_images = [\<lparr> oi_id = 0, oi_width = 100, oi_height = 100, oi_file_name = ''a.jpg'' \<rparr>],
            out_annotations = [?a],
            out_categories = [\<lparr> oc_id = 0, oc_name = ''a'', oc_supercategory = ''object'' \<rparr>,
                              \<lparr> oc_id = 1, oc_name = ''b'', oc_supercategory = ''object'' \<rparr>,
                              \<lparr> oc_id = 2, oc_name = ''c'', oc_supercategory = ''object'' \<rparr>] \<rparr>"
  have h: "yr_output (yolo_to_coco True True None (Some [''a'', ''b'', ''c'']) one_image_dir
             three_class_files) = Some ?out"
    by (simp add: eval_yolo_to_coco one_image_dir_def three_class_files_def)
  note t = yolo_to_coco_referential_integrity[OF h]
  from t have "\<forall>a \<in> set (out_annotations ?out).
            \<exists>f \<in> set three_class_files. \<exists>parts \<in> set (yf_lines f).
              5 \<le> length parts \<and> py_int (parts ! 0) = Inr (oa_category_id a) \<and>
              (\<exists>img \<in> set (out_images ?out). oi_id img = oa_image_id a \<and>
                 find_image one_image_dir (yf_stem f) image_extensions = Some (oi_file_name img))"
    by blast
  then have o: "\<exists>f \<in> set three_class_files. \<exists>parts \<in> set (yf_lines f).
      py_int (parts ! 0) = Inr 2 \<and>
      find_image one_image_dir (yf_stem f) image_extensions = Some ''a.jpg''"
    by fastforce
  from t have "\<forall>a \<in> set (out_annotations ?out).
            (\<exists>c \<in> set (out_categories ?out). oc_id c = oa_category_id a) \<longleftrightarrow>
            (0 \<le> oa_category_id a \<and>
             oa_category_id a < int (length (fst (load_classes True None (Some [''a'', ''b'', ''c'']) []))))"
    by blast
  then have c: "\<exists>c \<in> set (add_categories [''a'', ''b'', ''c''] 0). oc_id c = 2"
    by (simp add: load_classes_def)
  from h o c show ?thesis by blast
qed

section \<open>Properties of validate\_text\_annotations and validate\_audio\_annotations\<close>


lemma replicate_3: "replicate 3 x = [x, x, x]"
  by (simp add: eval_nat_numeral)

lemma replicate_15: "replicate 15 x = [x, x, x, x, x, x, x, x, x, x, x, x, x, x, x]"
  by (simp add: eval_nat_numeral)

lemma str_of_simps [simp]:
  "str_of [] = []" "str_of (c # cs) = of_char c # str_of cs"
  by (simp_all add: str_of_def)

lemma is_space_simps [simp]: "\<not> is_space 97" "\<not> is_space 98" "\<not> is_space 99"
  "\<not> is_space 100" "is_space 32" "is_space 133" "is_space 160"
  by (simp_all add: is_space_def)

lemma validate_samples_result:
  "validate_samples data r tls lc =
     (r\<lparr>tx_missing_text := tx_missing_text r +
            length (filter (\<lambda>x. py_not (get_cell (tr_text x))) data),
        tx_empty_text := tx_empty_text r +
            length (filter (\<lambda>x. \<not> py_not (get_cell (tr_text x)) \<and> is_blank_str (get_cell (tr_text x))) data),
        tx_missing_labels := tx_missing_labels r +
            length (filter (\<lambda>x. py_not (get_cell (tr_label x))) data)\<rparr>,
      tls @ map (\<lambda>x. length (py_str (get_cell (tr_text x))))
             (filter (\<lambda>x. counted (get_cell (tr_text x))) data),
      fold (\<lambda>x c. counter_incr c (py_str (get_cell (tr_label x))))
           (filter (\<lambda>x. \<not> py_not (get_cell (tr_label x))) data) lc)"
proof (induction data arbitrary: r tls lc)
  case Nil
  then show ?case by simp
next
  case (Cons x data)
  show ?case
    by (simp add: Cons.IH Let_def counted_def)
qed

lemma text_stats:
  "tx_text_length_stats (validate_records data) =
     compute_length_stats (map (\<lambda>x. length (py_str (get_cell (tr_text x))))
                             (filter (\<lambda>x. counted (get_cell (tr_text x))) data))"
  by (simp add: validate_records_def validate_samples_result)

lemma validate_rows_lengths:
  "validate_rows fe rows r tls ds = (None, r', tls', ds') \<Longrightarrow>
   tls' = tls @ map (\<lambda>x. length (py_str (get_cell (ar_transcription x))))
                  (filter (\<lambda>x. counted (get_cell (ar_transcription x))) rows)"
proof (induction rows arbitrary: r tls ds)
  case Nil
  then show ?case by simp
next
  case (Cons row rows)
  from Cons.prems obtain missing where
    m: "check_audio_file fe (get_cell (ar_audio_file row)) = Inr missing"
    by (cases "check_audio_file fe (get_cell (ar_audio_file row))") auto
  show ?case
  proof (cases "counted (get_cell (ar_transcription row))")
    case True
    with m Cons.prems obtain r1 ds1 where
      "validate_rows fe rows r1 (tls @ [length (py_str (get_cell (ar_transcription row)))]) ds1
         = (None, r', tls', ds')"
      by (auto simp: Let_def counted_def)
    from Cons.IH[OF this] True show ?thesis by simp
  next
    case False
    with m Cons.prems obtain r1 ds1 where
      "validate_rows fe rows r1 tls ds1 = (None, r', tls', ds')"
      by (auto simp: Let_def counted_def)
    from Cons.IH[OF this] False show ?thesis by simp
  qed
qed

lemma validate_rows_errors:
  "validate_rows fe rows r tls ds = (e, r', tls', ds') \<Longrightarrow> au_errors r' = au_errors r"
proof (induction rows arbitrary: r tls ds)
  case Nil
  then show ?case by simp
next
  case (Cons row rows)
  show ?case
  proof (cases "check_audio_file fe (get_cell (ar_audio_file row))")
    case (Inl x)
    with Cons.prems show ?thesis by simp
  next
    case (Inr missing)
    with Cons.prems obtain r1 tls1 ds1 where
      "validate_rows fe rows r1 tls1 ds1 = (e, r', tls', ds')" "au_errors r1 = au_errors r"
      by (auto simp: Let_def split: if_splits)
    with Cons.IH show ?thesis by metis
  qed
qed

lemma audio_stats:
  assumes "au_errors (validate_audio_annotations fe df) = []"
  shows "au_transcription_length_stats (validate_audio_annotations fe df) =
     compute_length_stats (map (\<lambda>x. length (py_str (get_cell (ar_transcription x))))
                             (filter (\<lambda>x. counted (get_cell (ar_transcription x))) df))"
proof -
  let ?r0 = "initial_audio_results\<lparr>au_total_samples := length df\<rparr>"
  obtain e r tls ds where v: "validate_rows fe df ?r0 [] [] = (e, r, tls, ds)"
    by (cases "validate_rows fe df ?r0 [] []") auto
  show ?thesis
  proof (cases e)
    case None
    with v validate_rows_lengths[of fe df ?r0 "[]" "[]" r tls ds] show ?thesis
      by (simp add: validate_audio_annotations_def)
  next
    case (Some err)
    with v assms show ?thesis by (simp add: validate_audio_annotations_def)
  qed
qed

text \<open>
  Claim C7 holds of a JSON source and fails of a CSV source. For the twenty records of
  the claim read from a CSV file, the three empty text fields and the empty label field
  are NaN, which is true in a condition: no text and no label is counted as missing, no
  warning is given, each NaN text enters the length statistics as a text of length 3 and
  the NaN label is counted under the name \<open>nan\<close>. The same records as a JSON array give
  the counts 3 and 1 and the warning for missing text only. In both cases the text of one
  space is counted by the separate counter \<open>empty_text\<close>.
\<close>

theorem validate_text_annotations_csv_empty_fields:
  "tx_total_samples (validate_text_annotations (CsvFile twenty_rows)) = 20 \<and>
   tx_missing_text (validate_text_annotations (CsvFile twenty_rows)) = 0 \<and>
   tx_missing_labels (validate_text_annotations (CsvFile twenty_rows)) = 0 \<and>
   tx_empty_text (validate_text_annotations (CsvFile twenty_rows)) = 1 \<and>
   tx_warnings (validate_text_annotations (CsvFile twenty_rows)) = [] \<and>
   tx_label_distribution (validate_text_annotations (CsvFile twenty_rows)) =
     [(str_of ''x'', 19), (str_of ''nan'', 1)] \<and>
   (\<exists>s. tx_text_length_stats (validate_text_annotations (CsvFile twenty_rows)) = Some s \<and>
        ls_min s = 1 \<and> ls_max s = 3) \<and>
   tx_total_samples (validate_text_annotations (JsonFile twenty_records)) = 20 \<and>
   tx_missing_text (validate_text_annotations (JsonFile twenty_records)) = 3 \<and>
   tx_missing_labels (validate_text_annotations (JsonFile twenty_records)) = 1 \<and>
   tx_empty_text (validate_text_annotations (JsonFile twenty_records)) = 1 \<and>
   tx_warnings (validate_text_annotations (JsonFile twenty_records)) = [HighMissingText 3 20] \<and>
   tx_label_distribution (validate_text_annotations (JsonFile twenty_records)) =
     [(str_of ''x'', 19)]"
  by (simp add: validate_text_annotations_def validate_records_def twenty_rows_def
        twenty_records_def initial_text_results_def text_warnings_def get_cell_def py_not_def
        is_blank_str_def py_str_def counter_incr_def dict_get_def compute_length_stats_def
        Let_def replicate_3 replicate_15)

text \<open>
  Texts that consist of a no-break space or of a next-line character are blank: they are
  counted by \<open>empty_text\<close> and have no part in the length statistics.
\<close>

lemma validate_text_annotations_blank_texts:
  "tx_empty_text (validate_text_annotations (JsonFile blank_texts)) = 2 \<and>
   tx_missing_text (validate_text_annotations (JsonFile blank_texts)) = 0 \<and>
   tx_text_length_stats (validate_text_annotations (JsonFile blank_texts)) = None"
  by (simp add: validate_text_annotations_def validate_records_def blank_texts_def
        initial_text_results_def text_warnings_def get_cell_def py_not_def
        is_blank_str_def py_str_def counter_incr_def dict_get_def compute_length_stats_def
        Let_def)

text \<open>
  Claim C8 as stated fails for the even case: for four texts of the lengths 4, 1, 3 and
  2 the reported median is 3, the element of index 2 of the sorted lengths, and not the
  element 2 of the lower-middle index 1.
\<close>

theorem median_lower_middle_counterexample:
  "tx_text_length_stats (validate_text_annotations (JsonFile four_texts)) =
     Some \<lparr> ls_min = 1, ls_max = 4, ls_mean = 5 / 2, ls_median = 3 \<rparr> \<and>
   sort [4, 1, 3, 2 :: nat] ! (length [4, 1, 3, 2 :: nat] div 2 - 1) = 2"
  by (simp add: validate_text_annotations_def validate_records_def four_texts_def
        initial_text_results_def get_cell_def py_not_def is_blank_str_def py_str_def
        counter_incr_def dict_get_def compute_length_stats_def Let_def)

text \<open>
  Claim C8, amended. For every non-empty sequence of counted text lengths the median of
  \<open>text_length_stats\<close> is the element of index \<open>n div 2\<close> of the sorted sequence of length
  \<open>n\<close>: the middle element when \<open>n\<close> is odd, the upper-middle one when \<open>n\<close> is even. The
  same holds for \<open>transcription_length_stats\<close> of the audio validator when it completes
  without an error.
\<close>

theorem median_is_element_at_half_length:
  "(let ls = map (\<lambda>x. length (py_str (get_cell (tr_text x))))
               (filter (\<lambda>x. counted (get_cell (tr_text x))) data)
    in ls \<noteq> [] \<longrightarrow>
       (\<exists>s. tx_text_length_stats (validate_text_annotations (JsonFile data)) = Some s \<and>
            tx_text_length_stats (validate_text_annotations (CsvFile data)) = Some s \<and>
            ls_median s = sort ls ! (length ls div 2))) \<and>
   (let ls = map (\<lambda>x. length (py_str (get_cell (ar_transcription x))))
               (filter (\<lambda>x. counted (get_cell (ar_transcription x))) df)
    in au_errors (validate_audio_annotations fe df) = [] \<longrightarrow> ls \<noteq> [] \<longrightarrow>
       (\<exists>s. au_transcription_length_stats (validate_audio_annotations fe df) = Some s \<and>
            ls_median s = sort ls ! (length ls div 2)))"
  by (simp add: Let_def validate_text_annotations_def text_stats audio_stats
        compute_length_stats_def)

theorem median_is_element_at_half_length_witness:
  "\<exists>s. tx_text_length_stats (validate_text_annotations (JsonFile four_texts)) = Some s \<and>
       ls_median s = sort [4, 1, 3, 2] ! (length [4, 1, 3, 2 :: nat] div 2)"
proof -
  have ls: "map (\<lambda>x. length (py_str (get_cell (tr_text x))))
              (filter (\<lambda>x. counted (get_cell (tr_text x))) four_texts) = [4, 1, 3, 2]"
    by (simp add: four_texts_def counted_def get_cell_def py_not_def is_blank_str_def py_str_def)
  from median_is_element_at_half_length[where data = four_texts, THEN conjunct1]
  show ?thesis
    unfolding Let_def ls by blast
qed

section \<open>Properties of validate\_image\_annotations\<close>

lemmas eval_validate_image =
  validate_image_annotations_def initial_image_results_def failed_def missing_field_errors_def
  required_fields_def has_field_def check_bbox_def counter_incr_def dict_get_def
  imbalance_warnings_def Let_def

text \<open>
  Claim C5, at a failing input. The first of two annotations has no \<open>bbox\<close> key. The
  missing field is recorded, but the \<open>continue\<close> that follows belongs to the loop over
  the field names, so the annotation is not skipped: reading its box raises, the handler
  of the whole function records the failure, and the second, valid annotation is never
  processed nor counted (the class distribution stays empty).
\<close>

theorem validate_image_annotations_missing_bbox_aborts:
  "validate_image_annotations (\<lambda>n. True) missing_bbox_dataset =
     \<lparr> total_images = 0, total_annotations = 2, missing_images = [], invalid_bboxes = [],
       class_distribution = [],
       ir_errors = [AnnotationMissingField (Some 1) ''bbox'', FailedToValidate (KeyError ''bbox'')],
       ir_warnings = [] \<rparr>"
  by (simp add: eval_validate_image missing_bbox_dataset_def full_annotation_def)

lemma validate_annotations_keeps:
  "validate_annotations m anns r c = (e, r', c') \<Longrightarrow>
   class_distribution r' = class_distribution r \<and> ir_warnings r' = ir_warnings r"
proof (induction anns arbitrary: r c)
  case Nil
  then show ?case by simp
next
  case (Cons ann anns)
  let ?r1 = "r\<lparr>ir_errors := ir_errors r @ missing_field_errors ann\<rparr>"
  show ?case
  proof (cases "ann_bbox ann")
    case None
    with Cons.prems show ?thesis by (auto simp: Let_def)
  next
    case (Some bbox)
    note b = this
    show ?thesis
    proof (cases "check_bbox ann bbox")
      case (Inl x)
      with b Cons.prems show ?thesis by (auto simp: Let_def)
    next
      case (Inr issues)
      note i = this
      let ?r2 = "?r1\<lparr>invalid_bboxes := invalid_bboxes ?r1 @ issues\<rparr>"
      show ?thesis
      proof (cases "ann_category_id ann")
        case None
        with b i Cons.prems show ?thesis by (auto simp: Let_def)
      next
        case (Some cid)
        with b i Cons.prems
        have "validate_annotations m anns ?r2 (counter_incr c (dict_get m cid ''unknown'')) = (e, r', c')"
          by (simp add: Let_def)
        from Cons.IH[OF this] show ?thesis by simp
      qed
    qed
  qed
qed

lemma warnings_of_distribution:
  "ir_warnings (validate_image_annotations fe d) =
     imbalance_warnings (class_distribution (validate_image_annotations fe d))"
proof -
  have init: "imbalance_warnings [] = []" by (simp add: imbalance_warnings_def)
  show ?thesis
  proof (cases "coco_images d")
    case None
    then show ?thesis by (simp add: validate_image_annotations_def initial_image_results_def init)
  next
    case (Some images)
    note im = this
    show ?thesis
    proof (cases "coco_annotations d")
      case None
      with im show ?thesis
        by (simp add: validate_image_annotations_def initial_image_results_def init)
    next
      case (Some annotations)
      note an = this
      show ?thesis
      proof (cases "coco_categories d")
        case None
        with im an show ?thesis
          by (simp add: validate_image_annotations_def initial_image_results_def init)
      next
        case (Some categories)
        note ca = this
        show ?thesis
        proof (cases "build_image_id_to_file images []")
          case (Inl e)
          with im an ca show ?thesis
            by (simp add: validate_image_annotations_def initial_image_results_def init failed_def)
        next
          case (Inr i2f)
          note i2f = this
          show ?thesis
          proof (cases "build_categories categories []")
            case (Inl e)
            with im an ca i2f show ?thesis
              by (simp add: validate_image_annotations_def initial_image_results_def init failed_def)
          next
            case (Inr c2n)
            let ?r2 = "initial_image_results\<lparr>total_images := length images,
                          total_annotations := length annotations,
                          missing_images := filter (\<lambda>n. \<not> fe n) (map (the \<circ> img_file_name) images)\<rparr>"
            obtain e r3 cc where v: "validate_annotations c2n annotations ?r2 [] = (e, r3, cc)"
              by (cases "validate_annotations c2n annotations ?r2 []") auto
            from validate_annotations_keeps[OF v]
            have k: "class_distribution r3 = []" "ir_warnings r3 = []"
              by (simp_all add: initial_image_results_def)
            from im an ca i2f Inr v k show ?thesis
              by (cases e) (simp_all add: validate_image_annotations_def Let_def failed_def init)
          qed
        qed
      qed
    qed
  qed
qed

lemma dict_set_twice: "dict_set (dict_set c k v) k v' = dict_set c k v'"
  by (induction c k v rule: dict_set.induct) auto

lemma dict_get_after_set: "dict_get (dict_set c k v) k d = v"
  by (simp add: dict_get_def map_of_dict_set)

lemma check_full: "check_bbox (full_annotation i cid) [10, 20, 30, 40] = Inr []"
  by (simp add: check_bbox_def)

lemma validate_annotations_full:
  "validate_annotations m (full_annotation i cid # rest) r c =
   validate_annotations m rest r (counter_incr c (dict_get m cid ''unknown''))"
proof -
  have "missing_field_errors (full_annotation i cid) = []"
    by (simp add: full_annotation_def missing_field_errors_def required_fields_def has_field_def)
  moreover have "ann_bbox (full_annotation i cid) = Some [10, 20, 30, 40]"
    "ann_category_id (full_annotation i cid) = Some cid"
    by (simp_all add: full_annotation_def)
  ultimately show ?thesis
    by (simp add: check_full Let_def)
qed

lemma validate_annotations_replicate:
  "validate_annotations m (replicate n (full_annotation i cid) @ rest) r c =
   validate_annotations m rest r (((\<lambda>c. counter_incr c (dict_get m cid ''unknown'')) ^^ n) c)"
proof (induction n arbitrary: c)
  case 0
  show ?case by simp
next
  case (Suc n)
  have "validate_annotations m (replicate (Suc n) (full_annotation i cid) @ rest) r c =
        validate_annotations m (replicate n (full_annotation i cid) @ rest) r
          (counter_incr c (dict_get m cid ''unknown''))"
    by (simp only: replicate_Suc append_Cons validate_annotations_full)
  then show ?case
    by (simp only: Suc.IH funpow_Suc_right comp_apply)
qed

lemma counter_incr_funpow:
  "((\<lambda>c. counter_incr c k) ^^ Suc n) c = dict_set c k (dict_get c k 0 + Suc n)"
proof (induction n)
  case 0
  show ?case by (simp add: counter_incr_def)
next
  case (Suc n)
  have "((\<lambda>c. counter_incr c k) ^^ Suc (Suc n)) c =
        counter_incr (((\<lambda>c. counter_incr c k) ^^ Suc n) c) k"
    by simp
  also have "\<dots> = counter_incr (dict_set c k (dict_get c k 0 + Suc n)) k"
    by (simp only: Suc.IH)
  also have "\<dots> = dict_set c k (dict_get c k 0 + Suc (Suc n))"
    by (simp add: counter_incr_def dict_set_twice dict_get_after_set)
  finally show ?case .
qed

lemma class_dataset_result:
  "validate_image_annotations fe (class_dataset (Suc n) (Suc m)) =
     \<lparr> total_images = 0, total_annotations = Suc n + Suc m, missing_images = [], invalid_bboxes = [],
       class_distribution = [(''A'', Suc n), (''B'', Suc m)],
       ir_errors = [],
       ir_warnings = (if max (Suc n) (Suc m) > min (Suc n) (Suc m) * 10
                      then [ClassImbalance (max (Suc n) (Suc m)) (min (Suc n) (Suc m))] else []) \<rparr>"
proof -
  have "validate_annotations [(1, ''A''), (2, ''B'')]
          (replicate (Suc n) (full_annotation 1 1) @ replicate (Suc m) (full_annotation 2 2) @ []) r [] =
        (None, r, [(''A'', Suc n), (''B'', Suc m)])" for r
    by (simp only: validate_annotations_replicate counter_incr_funpow)
       (simp add: dict_get_def)
  then show ?thesis
    by (simp add: validate_image_annotations_def class_dataset_def initial_image_results_def
          imbalance_warnings_def Let_def max_def min_def)
qed

text \<open>
  Claim C6. The warnings of validate\_image\_annotations are the class-imbalance warning
  exactly when the class distribution of the result is not empty and its largest count
  is greater than ten times its smallest count, and no warning otherwise. For 100
  annotations of A and 5 of B the warning is given; for 50 of A and 5 of B, where the
  largest count equals ten times the smallest, it is not.
\<close>

theorem class_imbalance_warning:
  "ir_warnings (validate_image_annotations fe d) =
     (if class_distribution (validate_image_annotations fe d) \<noteq> [] \<and>
         Max (set (map snd (class_distribution (validate_image_annotations fe d)))) >
           10 * Min (set (map snd (class_distribution (validate_image_annotations fe d))))
      then [ClassImbalance
              (Max (set (map snd (class_distribution (validate_image_annotations fe d)))))
              (Min (set (map snd (class_distribution (validate_image_annotations fe d)))))]
      else []) \<and>
   class_distribution (validate_image_annotations fe (class_dataset 100 5)) =
     [(''A'', 100), (''B'', 5)] \<and>
   ir_warnings (validate_image_annotations fe (class_dataset 100 5)) = [ClassImbalance 100 5] \<and>
   class_distribution (validate_image_annotations fe (class_dataset 50 5)) =
     [(''A'', 50), (''B'', 5)] \<and>
   ir_warnings (validate_image_annotations fe (class_dataset 50 5)) = []"
proof (intro conjI)
  show "ir_warnings (validate_image_annotations fe d) =
     (if class_distribution (validate_image_annotations fe d) \<noteq> [] \<and>
         Max (set (map snd (class_distribution (validate_image_annotations fe d)))) >
           10 * Min (set (map snd (class_distribution (validate_image_annotations fe d))))
      then [ClassImbalance
              (Max (set (map snd (class_distribution (validate_image_annotations fe d)))))
              (Min (set (map snd (class_distribution (validate_image_annotations fe d)))))]
      else [])"
    by (subst warnings_of_distribution) (simp add: imbalance_warnings_def Let_def mult.commute)
qed (use class_dataset_result[of fe 99 4] class_dataset_result[of fe 49 4] in simp_all)

theorem class_imbalance_warning_witness:
  "ir_warnings (validate_image_annotations (\<lambda>n. True) (class_dataset 100 5)) =
     [ClassImbalance 100 5] \<and>
   ir_warnings (validate_image_annotations (\<lambda>n. True) (class_dataset 50 5)) = []"
  using class_imbalance_warning[of "\<lambda>n. True" "class_dataset 100 5"]
  by blast

section \<open>The coordinate round trip\<close>

subsection \<open>Exact arithmetic\<close>

text \<open>With the identity as rounding the two transforms are those of the converters.\<close>

lemma annotation_to_line_center:
  "annotation_to_line cats c2i W H ann = Inr l \<Longrightarrow> ann_bbox ann = Some b \<Longrightarrow>
   [x_center l, y_center l, norm_width l, norm_height l] = to_normalized_center (\<lambda>z. z) b W H"
  by (auto simp: annotation_to_line_def to_normalized_center_def Let_def
        split: option.splits if_splits)

lemma parse_line_topleft:
  "parse_line n iid W H [IntTok c, FloatTok f1, FloatTok f2, FloatTok f3, FloatTok f4] = Inr (Some a) \<Longrightarrow>
   oa_bbox a = to_absolute_topleft (\<lambda>z. z) [f1, f2, f3, f4] W H"
  by (auto simp: parse_line_def to_absolute_topleft_def py_int_def py_float_def Let_def)

text \<open>
  In exact arithmetic the line that coco\_to\_yolo writes for a box is read back by
  yolo\_to\_coco as that box.
\<close>

lemma round_trip_exact:
  assumes "W \<noteq> 0" "H \<noteq> 0"
    and "ann_bbox ann = Some [x, y, w, h]"
    and "annotation_to_line cats c2i W H ann = Inr l"
  shows "\<exists>a. parse_line n iid W H (line_tokens l) = Inr (Some a) \<and> oa_bbox a = [x, y, w, h]"
  using assms
  by (auto simp: annotation_to_line_def parse_line_def line_tokens_def py_int_def py_float_def
        Let_def field_simps split: option.splits)

subsection \<open>Rounded arithmetic\<close>


lemma two_powr_int_diff: "(2::real) powr (of_int (a - int k)) = 2 powr of_int a / 2 ^ k"
proof -
  have "(2::real) powr (of_int (a - int k)) = 2 powr (of_int a - real k)" by simp
  also have "\<dots> = 2 powr of_int a / 2 powr real k" by (rule powr_diff)
  also have "2 powr real k = (2::real) ^ k" by (simp add: powr_realpow)
  finally show ?thesis .
qed

lemma fl_exponent_eq:
  assumes "2 ^ 52 \<le> \<bar>x\<bar> * 2 ^ k" "\<bar>x\<bar> * 2 ^ k < 2 ^ 53"
  shows "fl_exponent x = - int k"
proof -
  have pos: "\<bar>x\<bar> > 0" using assms(1) by (cases "x = 0") auto
  have k: "(2::real) ^ k > 0" by simp
  have p52: "(2::real) powr of_int 52 = 2 ^ 52" by simp
  have lo: "(2::real) powr of_int (52 - int k) \<le> \<bar>x\<bar>"
    unfolding two_powr_int_diff p52 using assms(1) k by (simp add: pos_divide_le_eq)
  have "(2::real) powr (of_int (52 - int k) + 1) = 2 powr of_int (52 - int k) * 2 powr 1"
    by (rule powr_add)
  also have "\<dots> = 2 ^ 53 / 2 ^ k"
    unfolding two_powr_int_diff p52 by simp
  finally have hi: "\<bar>x\<bar> < (2::real) powr (of_int (52 - int k) + 1)"
    using assms(2) k by (simp add: pos_less_divide_eq)
  have "\<lfloor>log 2 \<bar>x\<bar>\<rfloor> = 52 - int k"
    using floor_log_eq_powr_iff[of "\<bar>x\<bar>" 2 "52 - int k"] pos lo hi by simp
  then show ?thesis by (simp add: fl_exponent_def)
qed

lemma rnd_eval:
  assumes "2 ^ 52 \<le> \<bar>x\<bar> * 2 ^ k" "\<bar>x\<bar> * 2 ^ k < 2 ^ 53"
  shows "rnd x = of_int (round_half_even (x * 2 ^ k)) / 2 ^ k"
proof -
  from assms(1) have nz: "x \<noteq> 0" by (cases "x = 0") auto
  have "(2::real) powr of_int (0 - int k) = 2 powr of_int 0 / 2 ^ k"
    by (rule two_powr_int_diff)
  then have p: "(2::real) powr of_int (- int k) = 1 / 2 ^ k" by simp
  show ?thesis
    unfolding rnd_def fl_exponent_eq[OF assms] p using nz by simp
qed


lemma round_half_even_of_int [simp]: "round_half_even (of_int n) = n"
  by (simp add: round_half_even_def)

lemma round_half_even_numeral [simp]: "round_half_even (numeral n) = numeral n"
  using round_half_even_of_int[of "numeral n"] by simp

lemma rnd_0 [simp]: "rnd 0 = 0"
  by (simp add: rnd_def)



text \<open>
  The forward transform of the box (10, 20, 30, 40) on a 100 by 100 image in rounded
  arithmetic: every intermediate sum is exact, and the four results are the floats that
  the literals 0.25, 0.40, 0.30 and 0.40 denote.
\<close>

lemma to_normalized_center_rounded_example:
  "to_normalized_center rnd [10, 20, 30, 40] 100 100 =
     [rnd (25 / 100), rnd (40 / 100), rnd (30 / 100), rnd (40 / 100)]"
proof -
  have "rnd 15 = 15" "rnd 25 = 25" "rnd 20 = 20" "rnd 40 = 40"
    by (simp add: rnd_eval[where k = 49], simp add: rnd_eval[where k = 48],
        simp add: rnd_eval[where k = 48], simp add: rnd_eval[where k = 47])
  then show ?thesis
    by (simp add: to_normalized_center_def)
qed








end
